theory Spec2Isabelle
  imports Complex_Main "HOL-Library.Char_ord" "HOL-Library.List_Lexorder"
begin

section \<open>The dataset profiling engine of src/utils/DataAnalysis.tsx\<close>

text \<open>
  The engine is a set of pure JavaScript functions over rows of raw cell values. The
  embedding below follows the source function by function and keeps its names.

  Numbers. A JavaScript number is an IEEE 754 binary64 value. The model keeps the three
  special values (\<open>NaN\<close>, \<open>+Infinity\<close>, \<open>-Infinity\<close>) and their arithmetic, and represents
  a finite value by the real number it denotes; the finite values of the program are the
  reals \<open>x\<close> with \<open>is_double x\<close>. An arithmetic operation on finite values is the exact
  operation on the reals followed by \<open>round64\<close>, the rounding of IEEE 754 to the nearest
  binary64 value (ties to the even mantissa, gradual underflow, overflow to an infinity).
  The sign of zero is not modelled: zero behaves as \<open>+0\<close>.

  Strings. A string is a list of code units; only code units below 256 are represented.

  Built-ins whose definition lies outside the repository and is large or left to the
  implementation by ECMAScript (string to number, number to string, date parsing, and
  \<open>Math.pow\<close> on a finite non-zero base) are parameters, collected in the record
  \<open>js_builtins\<close>; every theorem holds for all of them.
\<close>

subsection \<open>Numbers\<close>

datatype jsnum = Fin real | PInf | NInf | NaN

fun isNaN :: "jsnum \<Rightarrow> bool" where
  "isNaN NaN = True"
| "isNaN _ = False"

fun isFinite :: "jsnum \<Rightarrow> bool" where
  "isFinite (Fin _) = True"
| "isFinite _ = False"

text \<open>The real value of a finite number (0 elsewhere; used only on finite numbers).\<close>

fun fin_val :: "jsnum \<Rightarrow> real" where
  "fin_val (Fin r) = r"
| "fin_val _ = 0"

fun is_negative :: "jsnum \<Rightarrow> bool" where
  "is_negative (Fin r) = (r < 0)"
| "is_negative NInf = True"
| "is_negative _ = False"

definition signed_inf :: "bool \<Rightarrow> jsnum" where
  "signed_inf neg = (if neg then NInf else PInf)"

text \<open>
  Rounding to binary64. A non-zero real \<open>x\<close> lies in one binade, \<open>2^e \<le> |x| < 2^(e+1)\<close> with
  \<open>e = binade x\<close>. The binary64 values of that binade are the multiples of \<open>2^(e-52)\<close>
  (53 bits of mantissa); below \<open>2^-1022\<close>, in the subnormal range, they are the multiples of
  \<open>2^-1074\<close>. \<open>round_magnitude\<close> takes \<open>|x|\<close> to the nearest such multiple, on a tie to
  the one with the even mantissa; a result of \<open>2^1024\<close> or more is an overflow and gives an
  infinity.
\<close>

definition binade :: "real \<Rightarrow> int" where
  "binade x = \<lfloor>log 2 \<bar>x\<bar>\<rfloor>"

definition ulp_exp :: "real \<Rightarrow> int" where
  "ulp_exp x = max (binade x - 52) (- 1074)"

definition round_half_even :: "real \<Rightarrow> int" where
  "round_half_even q =
     (let f = \<lfloor>q\<rfloor> in
      if q - of_int f < 1 / 2 then f
      else if q - of_int f > 1 / 2 then f + 1
      else if even f then f else f + 1)"

definition round_magnitude :: "real \<Rightarrow> real" where
  "round_magnitude x = of_int (round_half_even (\<bar>x\<bar> / 2 powi ulp_exp x)) * 2 powi ulp_exp x"

definition round64 :: "real \<Rightarrow> jsnum" where
  "round64 x =
     (if round_magnitude x \<ge> 2 ^ 1024 then signed_inf (x < 0)
      else Fin (sgn x * round_magnitude x))"

text \<open>The reals that are binary64 values.\<close>

definition is_double :: "real \<Rightarrow> bool" where
  "is_double x = (round64 x = Fin x)"

fun jneg :: "jsnum \<Rightarrow> jsnum" where
  "jneg (Fin r) = Fin (- r)"
| "jneg PInf = NInf"
| "jneg NInf = PInf"
| "jneg NaN = NaN"

text \<open>\<open>a + b\<close>\<close>

fun jadd :: "jsnum \<Rightarrow> jsnum \<Rightarrow> jsnum" where
  "jadd (Fin a) (Fin b) = round64 (a + b)"
| "jadd NaN _ = NaN"
| "jadd _ NaN = NaN"
| "jadd PInf NInf = NaN"
| "jadd NInf PInf = NaN"
| "jadd PInf _ = PInf"
| "jadd NInf _ = NInf"
| "jadd (Fin _) b = b"

text \<open>\<open>a - b\<close>\<close>

definition jsub :: "jsnum \<Rightarrow> jsnum \<Rightarrow> jsnum" where
  "jsub a b = jadd a (jneg b)"

text \<open>\<open>a * b\<close>: zero times infinity is NaN, otherwise the signs multiply.\<close>

fun jmul :: "jsnum \<Rightarrow> jsnum \<Rightarrow> jsnum" where
  "jmul (Fin a) (Fin b) = round64 (a * b)"
| "jmul NaN _ = NaN"
| "jmul _ NaN = NaN"
| "jmul a b =
     (if a = Fin 0 \<or> b = Fin 0 then NaN
      else signed_inf (is_negative a \<noteq> is_negative b))"

text \<open>
  \<open>a / b\<close>: \<open>0 / 0\<close> and \<open>Infinity / Infinity\<close> are NaN, a non-zero finite number divided
  by zero is an infinity, a finite number divided by an infinity is zero.
\<close>

fun jdiv :: "jsnum \<Rightarrow> jsnum \<Rightarrow> jsnum" where
  "jdiv (Fin a) (Fin b) =
     (if b = 0 then (if a = 0 then NaN else signed_inf (a < 0)) else round64 (a / b))"
| "jdiv NaN _ = NaN"
| "jdiv _ NaN = NaN"
| "jdiv (Fin _) _ = Fin 0"
| "jdiv a (Fin b) = signed_inf (is_negative a \<noteq> (b < 0))"
| "jdiv _ _ = NaN"

text \<open>
  \<open>Math.sqrt\<close>: the \<open>squareRoot\<close> operation of IEEE 754, which rounds the exact root to
  the nearest binary64 value.
\<close>

fun Math_sqrt :: "jsnum \<Rightarrow> jsnum" where
  "Math_sqrt (Fin r) = (if r < 0 then NaN else round64 (sqrt r))"
| "Math_sqrt PInf = PInf"
| "Math_sqrt _ = NaN"

text \<open>\<open>a < b\<close> and \<open>a > b\<close>: false as soon as one side is NaN.\<close>

fun jless :: "jsnum \<Rightarrow> jsnum \<Rightarrow> bool" where
  "jless NaN _ = False"
| "jless _ NaN = False"
| "jless (Fin a) (Fin b) = (a < b)"
| "jless PInf _ = False"
| "jless _ PInf = True"
| "jless NInf NInf = False"
| "jless NInf _ = True"
| "jless _ NInf = False"

definition jgreater :: "jsnum \<Rightarrow> jsnum \<Rightarrow> bool" where
  "jgreater a b = jless b a"

text \<open>\<open>Number.isInteger\<close>\<close>

fun Number_isInteger :: "jsnum \<Rightarrow> bool" where
  "Number_isInteger (Fin r) = (r = of_int \<lfloor>r\<rfloor>)"
| "Number_isInteger _ = False"

text \<open>Truthiness of a number: \<open>0\<close> and \<open>NaN\<close> are falsy.\<close>

definition truthy :: "jsnum \<Rightarrow> bool" where
  "truthy x = (x \<noteq> Fin 0 \<and> x \<noteq> NaN)"

text \<open>
  \<open>Number(x.toFixed(d))\<close>. \<open>toFixed\<close> prints the decimal with \<open>d\<close> fraction digits that is
  nearest to the value \<open>x\<close>, the larger magnitude on a tie (\<open>round_to\<close>), and \<open>Number\<close> reads
  it back as the binary64 value nearest to that decimal; NaN and the infinities print as
  \<open>"NaN"\<close>, \<open>"Infinity"\<close>, \<open>"-Infinity"\<close> and read back as themselves. (From magnitude
  \<open>10^21\<close> on \<open>toFixed\<close> prints the number itself; a binary64 value of that size is an
  integer, so rounding to \<open>d\<close> digits returns it unchanged there as well.)
\<close>

definition round_to :: "nat \<Rightarrow> real \<Rightarrow> real" where
  "round_to d r = sgn r * of_int \<lfloor>\<bar>r\<bar> * 10 ^ d + 1 / 2\<rfloor> / 10 ^ d"

fun Number_toFixed :: "nat \<Rightarrow> jsnum \<Rightarrow> jsnum" where
  "Number_toFixed d (Fin r) = round64 (round_to d r)"
| "Number_toFixed d x = x"

subsection \<open>Strings\<close>

text \<open>
  White space of \<open>String.prototype.trim\<close> and of the regular expression class \<open>\s\<close>, among
  the code units below 256: TAB, LF, VT, FF, CR, space and the no-break space.
\<close>

definition is_space :: "char \<Rightarrow> bool" where
  "is_space c = (of_char c \<in> {9, 10, 11, 12, 13, 32, 160 :: nat})"

definition trim :: "string \<Rightarrow> string" where
  "trim s = rev (dropWhile is_space (rev (dropWhile is_space s)))"

text \<open>\<open>toLowerCase\<close> on code units below 256: A-Z and the Latin-1 capitals.\<close>

definition lower_char :: "char \<Rightarrow> char" where
  "lower_char c =
     (let n = (of_char c :: nat) in
      if (65 \<le> n \<and> n \<le> 90) \<or> (192 \<le> n \<and> n \<le> 222 \<and> n \<noteq> 215)
      then char_of (n + 32) else c)"

definition toLowerCase :: "string \<Rightarrow> string" where
  "toLowerCase s = map lower_char s"

text \<open>\<open>s.replace(/\s+/g, '_')\<close>: every maximal run of white space becomes one underscore.\<close>

function replace_spaces :: "string \<Rightarrow> string" where
  "replace_spaces [] = []"
| "replace_spaces (c # cs) =
     (if is_space c then CHR ''_'' # replace_spaces (dropWhile is_space cs)
      else c # replace_spaces cs)"
  by pat_completeness auto
termination
  by (relation "measure length") (auto simp: length_dropWhile_le less_Suc_eq_le)

subsection \<open>Cell values, objects and built-ins\<close>

datatype jsval = Null | Undefined | Bool bool | Num jsnum | Str string

text \<open>
  A plain object is the list of its own properties in the order of \<open>Object.keys\<close>.
  Reading a property that is absent gives \<open>undefined\<close>; writing replaces the value of an
  existing property in place and appends a new one.
\<close>

type_synonym 'a obj = "(string \<times> 'a) list"

definition get_prop :: "jsval obj \<Rightarrow> string \<Rightarrow> jsval" where
  "get_prop ob k = (case map_of ob k of None \<Rightarrow> Undefined | Some v \<Rightarrow> v)"

fun obj_set :: "string \<Rightarrow> 'a \<Rightarrow> 'a obj \<Rightarrow> 'a obj" where
  "obj_set k v [] = [(k, v)]"
| "obj_set k v ((k', v') # ps) =
     (if k' = k then (k, v) # ps else (k', v') # obj_set k v ps)"

record js_builtins =
  StringToNumber :: "string \<Rightarrow> jsnum"
  NumberToString :: "jsnum \<Rightarrow> string"
  DateParseValid :: "string \<Rightarrow> bool"
  PowApprox :: "real \<Rightarrow> nat \<Rightarrow> jsnum"

text \<open>
  \<open>Math.pow(x, n)\<close> for a natural exponent (the source uses 2, 3 and 4). ECMAScript fixes
  the result for an exponent 0 (it is 1, also for a NaN base), for a NaN, infinite or zero
  base, and leaves the power of a finite non-zero base to the implementation
  (\<open>PowApprox\<close>).
\<close>

fun Math_pow :: "js_builtins \<Rightarrow> jsnum \<Rightarrow> nat \<Rightarrow> jsnum" where
  "Math_pow B x 0 = Fin 1"
| "Math_pow B (Fin r) n = (if r = 0 then Fin 0 else PowApprox B r n)"
| "Math_pow B PInf n = PInf"
| "Math_pow B NInf n = (if even n then PInf else NInf)"
| "Math_pow B NaN n = NaN"

text \<open>\<open>Number(v)\<close>\<close>

fun ToNumber :: "js_builtins \<Rightarrow> jsval \<Rightarrow> jsnum" where
  "ToNumber B Null = Fin 0"
| "ToNumber B Undefined = NaN"
| "ToNumber B (Bool b) = Fin (if b then 1 else 0)"
| "ToNumber B (Num n) = n"
| "ToNumber B (Str s) = StringToNumber B s"

text \<open>\<open>String(v)\<close>, the property key under which \<open>_.countBy\<close> counts a value.\<close>

fun ToString :: "js_builtins \<Rightarrow> jsval \<Rightarrow> string" where
  "ToString B Null = ''null''"
| "ToString B Undefined = ''undefined''"
| "ToString B (Bool b) = (if b then ''true'' else ''false'')"
| "ToString B (Num n) = NumberToString B n"
| "ToString B (Str s) = s"

text \<open>
  \<open>!isNaN(new Date(v).getTime())\<close>: a string is parsed by the implementation, a number is a
  time value (valid up to 8.64e15 ms in magnitude), a boolean or null converts to a number
  first, \<open>undefined\<close> gives an invalid date.
\<close>

fun date_valid :: "js_builtins \<Rightarrow> jsval \<Rightarrow> bool" where
  "date_valid B (Str s) = DateParseValid B s"
| "date_valid B (Num (Fin r)) = (\<bar>r\<bar> \<le> 8640000000000000)"
| "date_valid B (Num _) = False"
| "date_valid B (Bool _) = True"
| "date_valid B Null = True"
| "date_valid B Undefined = False"

subsection \<open>lodash\<close>

text \<open>\<open>_.sum\<close>: 0 for an empty array, otherwise the elements added from left to right.\<close>

fun lodash_sum :: "jsnum list \<Rightarrow> jsnum" where
  "lodash_sum [] = Fin 0"
| "lodash_sum (x # xs) = foldl jadd x xs"

text \<open>\<open>_.mean\<close>: NaN for an empty array, otherwise the sum divided by the length.\<close>

definition lodash_mean :: "jsnum list \<Rightarrow> jsnum" where
  "lodash_mean xs =
     (if length xs = 0 then NaN else jdiv (lodash_sum xs) (Fin (real (length xs))))"

text \<open>
  \<open>_.orderBy(xs, [key], ['desc'])\<close>: a stable sort by descending key; elements whose keys
  compare equal keep their order. Keys are compared with \<open><\<close> and \<open>>\<close>, which on strings
  is the lexicographic order of the code units.
\<close>

fun insert_desc :: "('a \<Rightarrow> 'k::linorder) \<Rightarrow> 'a \<Rightarrow> 'a list \<Rightarrow> 'a list" where
  "insert_desc f x [] = [x]"
| "insert_desc f x (y # ys) =
     (if f y > f x then y # insert_desc f x ys else x # y # ys)"

definition orderBy_desc :: "('a \<Rightarrow> 'k::linorder) \<Rightarrow> 'a list \<Rightarrow> 'a list" where
  "orderBy_desc f xs = foldr (insert_desc f) xs []"

text \<open>\<open>_.uniq\<close>: the first occurrence of every value, in order (NaN equals NaN).\<close>

fun uniq :: "'a list \<Rightarrow> 'a list" where
  "uniq [] = []"
| "uniq (x # xs) = x # uniq (filter (\<lambda>y. y \<noteq> x) xs)"

text \<open>
  \<open>_.countBy(values)\<close> followed by \<open>Object.entries\<close>: one property per distinct key with
  the number of its occurrences. The properties whose key is an array index (a canonical
  decimal numeral below \<open>2^32 - 1\<close>) come first, in ascending numeric order, the others
  follow in the order of their first occurrence.
\<close>

definition countBy :: "string list \<Rightarrow> nat obj" where
  "countBy keys =
     fold (\<lambda>k ob. case map_of ob k of None \<Rightarrow> obj_set k 1 ob
                                     | Some n \<Rightarrow> obj_set k (n + 1) ob) keys []"

definition digit_val :: "char \<Rightarrow> nat" where
  "digit_val c = of_char c - 48"

definition is_digit :: "char \<Rightarrow> bool" where
  "is_digit c = (48 \<le> (of_char c :: nat) \<and> (of_char c :: nat) \<le> 57)"

definition decimal_val :: "string \<Rightarrow> nat" where
  "decimal_val s = foldl (\<lambda>acc c. 10 * acc + digit_val c) 0 s"

definition is_array_index :: "string \<Rightarrow> bool" where
  "is_array_index s =
     (s \<noteq> [] \<and> list_all is_digit s \<and> (s = ''0'' \<or> hd s \<noteq> CHR ''0'')
      \<and> int (decimal_val s) < 2 ^ 32 - 1)"

definition Object_entries :: "'a obj \<Rightarrow> 'a obj" where
  "Object_entries ob =
     sort_key (\<lambda>p. decimal_val (fst p)) (filter (\<lambda>p. is_array_index (fst p)) ob)
     @ filter (\<lambda>p. \<not> is_array_index (fst p)) ob"

subsection \<open>detectColumnType\<close>

datatype column_type = TInteger | TFloat | TBoolean | TDate | TString | TUnknown

text \<open>\<open>v !== null && v !== undefined && v !== ''\<close>\<close>

definition nonNull :: "jsval \<Rightarrow> bool" where
  "nonNull v = (v \<noteq> Null \<and> v \<noteq> Undefined \<and> v \<noteq> Str '''')"

text \<open>\<open>!isNaN(Number(v)) && isFinite(Number(v))\<close>\<close>

definition numericLike :: "js_builtins \<Rightarrow> jsval \<Rightarrow> bool" where
  "numericLike B v = (\<not> isNaN (ToNumber B v) \<and> isFinite (ToNumber B v))"

text \<open>
  \<open>typeof v === 'boolean' || (typeof v === 'string' &&
     ['true', 'false', 'yes', 'no', '1', '0'].includes(v.toLowerCase()))\<close>
\<close>

fun booleanLike :: "jsval \<Rightarrow> bool" where
  "booleanLike (Bool _) = True"
| "booleanLike (Str s) =
     (toLowerCase s \<in> set [''true'', ''false'', ''yes'', ''no'', ''1'', ''0''])"
| "booleanLike _ = False"

definition detectColumnType :: "js_builtins \<Rightarrow> jsval list \<Rightarrow> column_type" where
  "detectColumnType B values =
     (let nonNullValues = filter nonNull values in
      if length nonNullValues = 0 then TUnknown
      else
        let numericValues = filter (numericLike B) nonNullValues in
        if length numericValues = length nonNullValues then
          (let isAllIntegers = list_all (\<lambda>v. Number_isInteger (ToNumber B v)) numericValues
           in if isAllIntegers then TInteger else TFloat)
        else
          let booleanValues = filter booleanLike nonNullValues in
          if length booleanValues = length nonNullValues then TBoolean
          else
            let dateValues = filter (date_valid B) nonNullValues in
            if length dateValues = length nonNullValues then TDate else TString)"

subsection \<open>calculateNumericStats\<close>

text \<open>A statistic is a number or \<open>null\<close> (\<open>None\<close>).\<close>

record numeric_stats =
  count :: nat
  mean :: "jsnum option"
  median :: "jsnum option"
  std :: "jsnum option"
  min_v :: "jsnum option"
  max_v :: "jsnum option"
  q1 :: "jsnum option"
  q3 :: "jsnum option"
  variance :: "jsnum option"
  skewness :: "jsnum option"
  kurtosis :: "jsnum option"

text \<open>\<open>xs[i]\<close>: \<open>undefined\<close> (\<open>None\<close>) out of range; in arithmetic \<open>undefined\<close> is NaN.\<close>

definition elem_at :: "'a list \<Rightarrow> nat \<Rightarrow> 'a option" where
  "elem_at xs i = (if i < length xs then Some (xs ! i) else None)"

fun operand :: "jsnum option \<Rightarrow> jsnum" where
  "operand (Some x) = x"
| "operand None = NaN"

text \<open>
  \<open>values.map(v => Number(v)).filter(v => !isNaN(v) && isFinite(v)).sort((a, b) => a - b)\<close>:
  the comparator orders finite numbers by value (the difference of two different binary64
  values has the sign of the exact difference) and the sort is stable.
\<close>

definition sortedNumericValues :: "js_builtins \<Rightarrow> jsval list \<Rightarrow> jsnum list" where
  "sortedNumericValues B values =
     sort_key fin_val (filter (\<lambda>v. \<not> isNaN v \<and> isFinite v) (map (ToNumber B) values))"

text \<open>
  \<open>Math.floor(count * 0.25)\<close> and \<open>Math.floor(count * 0.75)\<close>. The products are multiples of
  \<open>1/4\<close> below \<open>2^53\<close> for every array length, so binary64 computes them without rounding.
\<close>

definition q1Index :: "nat \<Rightarrow> nat" where
  "q1Index n = nat \<lfloor>real n * 0.25\<rfloor>"

definition q3Index :: "nat \<Rightarrow> nat" where
  "q3Index n = nat \<lfloor>real n * 0.75\<rfloor>"

text \<open>\<open>x ? Number(x.toFixed(4)) : null\<close> for a statistic that is a number or \<open>null\<close>.\<close>

fun falsy_to_null :: "jsnum option \<Rightarrow> jsnum option" where
  "falsy_to_null None = None"
| "falsy_to_null (Some x) = (if truthy x then Some (Number_toFixed 4 x) else None)"

text \<open>
  The constants of the body of \<open>calculateNumericStats\<close>, one definition for each, as
  functions of the sorted finite sample \<open>numericValues\<close> (which is not empty there).
\<close>

definition mean_of :: "jsnum list \<Rightarrow> jsnum" where
  "mean_of numericValues = lodash_mean numericValues"

definition median_of :: "jsnum list \<Rightarrow> jsnum option" where
  "median_of numericValues =
     (let count = length numericValues in
      if count mod 2 = 0
      then Some (jdiv (jadd (operand (elem_at numericValues (count div 2 - 1)))
                            (operand (elem_at numericValues (count div 2)))) (Fin 2))
      else elem_at numericValues (count div 2))"

definition variance_of :: "js_builtins \<Rightarrow> jsnum list \<Rightarrow> jsnum" where
  "variance_of B numericValues =
     jdiv (lodash_sum (map (\<lambda>v. Math_pow B (jsub v (mean_of numericValues)) 2) numericValues))
          (Fin (real (length numericValues) - 1))"

definition std_of :: "js_builtins \<Rightarrow> jsnum list \<Rightarrow> jsnum" where
  "std_of B numericValues = Math_sqrt (variance_of B numericValues)"

definition skewness_of :: "js_builtins \<Rightarrow> jsnum list \<Rightarrow> jsnum option" where
  "skewness_of B numericValues =
     (let count = length numericValues; mean = mean_of numericValues;
          std = std_of B numericValues
      in if count > 2
         then Some (jdiv (lodash_sum
                            (map (\<lambda>v. Math_pow B (jdiv (jsub v mean) std) 3) numericValues))
                         (Fin (real count)))
         else None)"

definition kurtosis_of :: "js_builtins \<Rightarrow> jsnum list \<Rightarrow> jsnum option" where
  "kurtosis_of B numericValues =
     (let count = length numericValues; mean = mean_of numericValues;
          std = std_of B numericValues
      in if count > 3
         then Some (jsub (jdiv (lodash_sum
                                  (map (\<lambda>v. Math_pow B (jdiv (jsub v mean) std) 4) numericValues))
                               (Fin (real count)))
                         (Fin 3))
         else None)"

definition calculateNumericStats :: "js_builtins \<Rightarrow> jsval list \<Rightarrow> numeric_stats" where
  "calculateNumericStats B values =
     (let numericValues = sortedNumericValues B values in
      if length numericValues = 0 then
        \<lparr>count = 0, mean = None, median = None, std = None, min_v = None, max_v = None,
         q1 = None, q3 = None, variance = None, skewness = None, kurtosis = None\<rparr>
      else
        let count = length numericValues in
        \<lparr>count = count,
         mean = Some (Number_toFixed 4 (mean_of numericValues)),
         median = median_of numericValues,
         std = Some (Number_toFixed 4 (std_of B numericValues)),
         min_v = elem_at numericValues 0,
         max_v = elem_at numericValues (count - 1),
         q1 = elem_at numericValues (q1Index count),
         q3 = elem_at numericValues (q3Index count),
         variance = Some (Number_toFixed 4 (variance_of B numericValues)),
         skewness = falsy_to_null (skewness_of B numericValues),
         kurtosis = falsy_to_null (kurtosis_of B numericValues)\<rparr>)"

subsection \<open>calculateCategoricalStats\<close>

record top_value =
  tv_value :: string
  tv_count :: nat
  percentage :: jsnum

record categorical_stats =
  cat_count :: nat
  uniqueCount :: nat
  mode :: "string option"
  modeFrequency :: nat
  valueCounts :: "nat obj"
  topValues :: "top_value list"

definition calculateCategoricalStats :: "js_builtins \<Rightarrow> jsval list \<Rightarrow> categorical_stats" where
  "calculateCategoricalStats B values =
     (let nonNullValues = filter nonNull values;
          valueCounts = Object_entries (countBy (map (ToString B) nonNullValues));
          sortedCounts = orderBy_desc snd valueCounts;
          uniqueCount = length valueCounts;
          totalCount = length nonNullValues;
          mode = (if length sortedCounts > 0 then Some (fst (sortedCounts ! 0)) else None);
          modeFrequency = (if length sortedCounts > 0 then snd (sortedCounts ! 0) else 0)
      in \<lparr>cat_count = totalCount,
          uniqueCount = uniqueCount,
          mode = mode,
          modeFrequency = modeFrequency,
          valueCounts = valueCounts,
          topValues =
            map (\<lambda>(v, c). \<lparr>tv_value = v, tv_count = c,
                            percentage = Number_toFixed 2
                              (jmul (jdiv (Fin (real c)) (Fin (real totalCount))) (Fin 100))\<rparr>)
                (take 10 sortedCounts)\<rparr>)"

subsection \<open>detectOutliers\<close>

definition detectOutliers :: "js_builtins \<Rightarrow> jsval list \<Rightarrow> jsnum list" where
  "detectOutliers B values =
     (let numericValues = sortedNumericValues B values in
      if length numericValues < 4 then []
      else
        let count = length numericValues;
            q1 = operand (elem_at numericValues (q1Index count));
            q3 = operand (elem_at numericValues (q3Index count));
            iqr = jsub q3 q1;
            lowerBound = jsub q1 (jmul (Fin 1.5) iqr);
            upperBound = jadd q3 (jmul (Fin 1.5) iqr)
        in filter (\<lambda>v. jless v lowerBound \<or> jgreater v upperBound) numericValues)"

subsection \<open>calculateMissingData\<close>

record missing_data =
  total :: nat
  missing :: nat
  present :: nat
  missingPercentage :: jsnum
  presentPercentage :: jsnum

text \<open>
  \<open>v === null || v === undefined || v === '' ||
   (typeof v === 'string' && v.trim() === '') || (typeof v === 'number' && isNaN(v))\<close>
\<close>

fun isMissing :: "jsval \<Rightarrow> bool" where
  "isMissing Null = True"
| "isMissing Undefined = True"
| "isMissing (Str s) = (s = '''' \<or> trim s = '''')"
| "isMissing (Num n) = isNaN n"
| "isMissing (Bool _) = False"

definition calculateMissingData :: "jsval list \<Rightarrow> missing_data" where
  "calculateMissingData values =
     (let total = length values;
          missing = length (filter isMissing values)
      in \<lparr>total = total,
          missing = missing,
          present = total - missing,
          missingPercentage =
            Number_toFixed 2 (jmul (jdiv (Fin (real missing)) (Fin (real total))) (Fin 100)),
          presentPercentage =
            Number_toFixed 2
              (jmul (jdiv (Fin (real (total - missing))) (Fin (real total))) (Fin 100))\<rparr>)"

subsection \<open>Column profiles\<close>

datatype column_stats = NumericStats numeric_stats | CategoricalStats categorical_stats

record column_profile =
  name :: string
  ctype :: column_type
  missingData :: missing_data
  stats :: column_stats
  outliers :: "jsnum list"
  sampleValues :: "jsval list"

subsection \<open>suggestChartTypes\<close>

record chart_suggestion =
  chart :: string
  title :: string
  description :: string
  requiredColumns :: "string obj"
  priority :: string

definition suggestChartTypes :: "column_profile list \<Rightarrow> chart_suggestion list" where
  "suggestChartTypes columns =
     (let numericColumns = filter (\<lambda>col. ctype col = TInteger \<or> ctype col = TFloat) columns;
          categoricalColumns = filter (\<lambda>col. ctype col = TString \<or> ctype col = TBoolean) columns;
          dateColumns = filter (\<lambda>col. ctype col = TDate) columns;
          suggestions =
            (if length numericColumns \<ge> 1 then
               [\<lparr>chart = ''histogram'', title = ''Distribution Analysis'',
                 description = ''Shows the distribution of numeric values'',
                 requiredColumns = [(''x'', name (numericColumns ! 0))],
                 priority = ''high''\<rparr>,
                \<lparr>chart = ''boxplot'', title = ''Box Plot Analysis'',
                 description = ''Shows quartiles and outliers'',
                 requiredColumns = [(''x'', name (numericColumns ! 0))],
                 priority = ''medium''\<rparr>]
             else [])
            @ (if length numericColumns \<ge> 2 then
               [\<lparr>chart = ''scatter'', title = ''Correlation Analysis'',
                 description = ''Shows relationship between two numeric variables'',
                 requiredColumns = [(''x'', name (numericColumns ! 0)),
                                    (''y'', name (numericColumns ! 1))],
                 priority = ''high''\<rparr>]
             else [])
            @ (if length numericColumns \<ge> 3 then
               [\<lparr>chart = ''heatmap'', title = ''Correlation Matrix'',
                 description = ''Shows correlations between all numeric variables'',
                 requiredColumns = [],
                 priority = ''medium''\<rparr>]
             else [])
            @ (if length categoricalColumns \<ge> 1 \<and> length numericColumns \<ge> 1 then
               [\<lparr>chart = ''bar'', title = ''Category Comparison'',
                 description = ''Compare numeric values across categories'',
                 requiredColumns = [(''x'', name (categoricalColumns ! 0)),
                                    (''y'', name (numericColumns ! 0))],
                 priority = ''high''\<rparr>]
             else [])
            @ (if length categoricalColumns \<ge> 1 then
               [\<lparr>chart = ''pie'', title = ''Category Distribution'',
                 description = ''Shows proportion of each category'',
                 requiredColumns = [(''x'', name (categoricalColumns ! 0))],
                 priority = ''medium''\<rparr>]
             else [])
            @ (if length dateColumns \<ge> 1 \<and> length numericColumns \<ge> 1 then
               [\<lparr>chart = ''line'', title = ''Time Series Analysis'',
                 description = ''Shows trends over time'',
                 requiredColumns = [(''x'', name (dateColumns ! 0)),
                                    (''y'', name (numericColumns ! 0))],
                 priority = ''high''\<rparr>]
             else [])
      in orderBy_desc priority suggestions)"

subsection \<open>pearsonCorrelation and calculateCorrelationMatrix\<close>

definition pearsonCorrelation :: "jsnum list \<Rightarrow> jsnum list \<Rightarrow> jsnum" where
  "pearsonCorrelation x y =
     (let n = length x in
      if n \<noteq> length y \<or> n = 0 then Fin 0
      else
        let sumX = lodash_sum x;
            sumY = lodash_sum y;
            sumXY = lodash_sum (map (\<lambda>(xi, yi). jmul xi yi) (zip x y));
            sumX2 = lodash_sum (map (\<lambda>xi. jmul xi xi) x);
            sumY2 = lodash_sum (map (\<lambda>yi. jmul yi yi) y);
            numerator = jsub (jmul (Fin (real n)) sumXY) (jmul sumX sumY);
            denominator =
              Math_sqrt (jmul (jsub (jmul (Fin (real n)) sumX2) (jmul sumX sumX))
                              (jsub (jmul (Fin (real n)) sumY2) (jmul sumY sumY)))
        in if denominator = Fin 0 then Fin 0
           else Number_toFixed 4 (jdiv numerator denominator))"

text \<open>\<open>data.map(d => Number(d[col])).filter(v => !isNaN(v) && isFinite(v))\<close>\<close>

definition columnNumbers :: "js_builtins \<Rightarrow> jsval obj list \<Rightarrow> string \<Rightarrow> jsnum list" where
  "columnNumbers B data col =
     filter (\<lambda>v. \<not> isNaN v \<and> isFinite v) (map (\<lambda>d. ToNumber B (get_prop d col)) data)"

text \<open>The value stored at \<open>correlations[col1][col2]\<close> by the body of the inner loop.\<close>

definition correlationEntry ::
  "js_builtins \<Rightarrow> jsval obj list \<Rightarrow> string \<Rightarrow> string \<Rightarrow> jsnum" where
  "correlationEntry B data col1 col2 =
     (let values1 = columnNumbers B data col1;
          values2 = columnNumbers B data col2
      in if length values1 = length values2 \<and> length values1 > 1
         then pearsonCorrelation values1 values2
         else Fin 0)"

definition calculateCorrelationMatrix ::
  "js_builtins \<Rightarrow> jsval obj list \<Rightarrow> string list \<Rightarrow> (jsnum obj) obj" where
  "calculateCorrelationMatrix B data numericColumns =
     fold (\<lambda>col1 correlations.
             obj_set col1
               (fold (\<lambda>col2 inner. obj_set col2 (correlationEntry B data col1 col2) inner)
                     numericColumns [])
               correlations)
          numericColumns []"

text \<open>\<open>correlations[col1][col2]\<close>; \<open>None\<close> when the row or the entry is absent.\<close>

definition matrix_get :: "(jsnum obj) obj \<Rightarrow> string \<Rightarrow> string \<Rightarrow> jsnum option" where
  "matrix_get m col1 col2 = (case map_of m col1 of None \<Rightarrow> None | Some r \<Rightarrow> map_of r col2)"

subsection \<open>analyzeDataset\<close>

datatype error = DatasetEmptyOrInvalid

record dataset_profile =
  filename :: string
  data :: "jsval obj list"
  columns :: "column_profile list"
  correlations :: "(jsnum obj) obj"
  chartSuggestions :: "chart_suggestion list"

text \<open>\<open>name.trim().replace(/\s+/g, '_').toLowerCase()\<close>\<close>

definition cleanName :: "string \<Rightarrow> string" where
  "cleanName nm = toLowerCase (replace_spaces (trim nm))"

text \<open>
  \<open>columnNames[index]\<close> used as a property key: past the end of the array it is
  \<open>undefined\<close>, which names the property \<open>"undefined"\<close>.
\<close>

definition columnKey :: "string list \<Rightarrow> nat \<Rightarrow> string" where
  "columnKey columnNames index =
     (case elem_at columnNames index of Some nm \<Rightarrow> nm | None \<Rightarrow> ''undefined'')"

text \<open>The body of \<open>data.map(row => ...)\<close>: the row re-keyed by position.\<close>

definition cleanRow :: "string list \<Rightarrow> jsval obj \<Rightarrow> jsval obj" where
  "cleanRow columnNames row =
     fold (\<lambda>(index, originalName) acc.
             obj_set (columnKey columnNames index) (get_prop row originalName) acc)
          (zip [0 ..< length row] (map fst row)) []"

text \<open>The body of \<open>columnNames.map(name => ...)\<close>: the profile of one column.\<close>

definition analyzeColumn :: "js_builtins \<Rightarrow> jsval obj list \<Rightarrow> string \<Rightarrow> column_profile" where
  "analyzeColumn B cleanData nm =
     (let values = map (\<lambda>row. get_prop row nm) cleanData;
          type = detectColumnType B values;
          missingData = calculateMissingData values;
          numeric = (type = TInteger \<or> type = TFloat);
          stats = (if numeric then NumericStats (calculateNumericStats B values)
                   else CategoricalStats (calculateCategoricalStats B values));
          outliers = (if numeric then detectOutliers B values else [])
      in \<lparr>name = nm,
          ctype = type,
          missingData = missingData,
          stats = stats,
          outliers = (if length outliers > 0 then take 10 outliers else []),
          sampleValues = take 5 (uniq (filter nonNull values))\<rparr>)"

text \<open>
  \<open>analyzeDataset(data, filename = 'dataset')\<close>. An absent argument is \<open>None\<close>. The only
  \<open>throw\<close> is the guard at the top, so the result is the error or a profile. The profile
  carries the fields read by the properties below; \<open>summary\<close>, \<open>qualityAssessment\<close> and
  \<open>metadata\<close> are computed from the same columns afterwards and raise nothing.
\<close>

definition analyzeDataset ::
  "js_builtins \<Rightarrow> jsval obj list option \<Rightarrow> string option \<Rightarrow> error + dataset_profile" where
  "analyzeDataset B input fname =
     (case input of
        None \<Rightarrow> Inl DatasetEmptyOrInvalid
      | Some rows \<Rightarrow>
          if length rows = 0 then Inl DatasetEmptyOrInvalid
          else
            let firstRow = rows ! 0;
                columnNames = map cleanName (map fst firstRow);
                cleanData = map (cleanRow columnNames) rows;
                columns = map (analyzeColumn B cleanData) columnNames;
                numericColumnNames =
                  map name (filter (\<lambda>col. ctype col = TInteger \<or> ctype col = TFloat) columns);
                correlations =
                  (if length numericColumnNames \<ge> 2
                   then calculateCorrelationMatrix B cleanData numericColumnNames
                   else []);
                chartSuggestions = suggestChartTypes columns
            in Inr \<lparr>filename = (case fname of None \<Rightarrow> ''dataset'' | Some f \<Rightarrow> f),
                    data = cleanData,
                    columns = columns,
                    correlations = correlations,
                    chartSuggestions = chartSuggestions\<rparr>)"

subsection \<open>An instance of the built-ins\<close>

text \<open>
  The theorems below hold for every choice of the built-ins. Their concrete instances are
  evaluated with the following one, which agrees with ECMAScript on the strings and numbers
  that occur there: a string of white space converts to 0, an unsigned decimal integer to
  its value and the other strings used to NaN; a natural number prints as its decimal
  numeral and NaN as \<open>"NaN"\<close>; none of the strings used parses as a date; a power is the
  exact power rounded to binary64.
\<close>

function show_nat :: "nat \<Rightarrow> string" where
  "show_nat n =
     (if n < 10 then [char_of (48 + n)] else show_nat (n div 10) @ [char_of (48 + n mod 10)])"
  by pat_completeness auto
termination
  by (relation "measure id") auto

definition example_StringToNumber :: "string \<Rightarrow> jsnum" where
  "example_StringToNumber s =
     (if trim s = '''' then Fin 0
      else if list_all is_digit s then round64 (real (decimal_val s))
      else NaN)"

fun example_NumberToString :: "jsnum \<Rightarrow> string" where
  "example_NumberToString (Fin r) = (if r < 0 then ''-'' else '''') @ show_nat (nat \<lfloor>\<bar>r\<bar>\<rfloor>)"
| "example_NumberToString PInf = ''Infinity''"
| "example_NumberToString NInf = ''-Infinity''"
| "example_NumberToString NaN = ''NaN''"

definition example_builtins :: js_builtins where
  "example_builtins =
     \<lparr>StringToNumber = example_StringToNumber,
      NumberToString = example_NumberToString,
      DateParseValid = (\<lambda>s. False),
      PowApprox = (\<lambda>r n. round64 (r ^ n))\<rparr>"

section \<open>Properties\<close>

subsection \<open>Binades\<close>

lemma binade_bounds:
  assumes "x \<noteq> 0"
  shows "2 powi binade x \<le> \<bar>x\<bar>" and "\<bar>x\<bar> < 2 powi (binade x + 1)"
proof -
  have pos: "0 < \<bar>x\<bar>" using assms by simp
  have "2 powr real_of_int (binade x) \<le> \<bar>x\<bar> \<and> \<bar>x\<bar> < 2 powr (real_of_int (binade x) + 1)"
    using floor_log_eq_powr_iff [of "\<bar>x\<bar>" 2 "binade x"] pos by (simp add: binade_def)
  moreover have "2 powr real_of_int (binade x) = (2::real) powi binade x"
    by (rule powr_real_of_int') simp_all
  moreover have "2 powr (real_of_int (binade x) + 1) = (2::real) powi (binade x + 1)"
    using powr_real_of_int' [of 2 "binade x + 1"] by (simp add: add.commute)
  ultimately show "2 powi binade x \<le> \<bar>x\<bar>" and "\<bar>x\<bar> < 2 powi (binade x + 1)"
    by simp_all
qed

lemma binade_eqI:
  assumes "2 powi k \<le> \<bar>x\<bar>" and "\<bar>x\<bar> < 2 powi (k + 1)"
  shows "binade x = k"
proof -
  have pos: "0 < \<bar>x\<bar>"
    using assms(1) zero_less_power_int [of "2::real" k] by linarith
  have a: "2 powr real_of_int k = (2::real) powi k"
    by (rule powr_real_of_int') simp_all
  have b: "2 powr (real_of_int k + 1) = (2::real) powi (k + 1)"
    using powr_real_of_int' [of 2 "k + 1"] by (simp add: add.commute)
  show ?thesis
    unfolding binade_def
    using floor_log_eq_powr_iff [of "\<bar>x\<bar>" 2 k] pos assms a b by simp
qed

lemma binade_mono:
  assumes "x \<noteq> 0" and "\<bar>x\<bar> \<le> \<bar>y\<bar>"
  shows "binade x \<le> binade y"
proof -
  have "0 < \<bar>x\<bar>" "0 < \<bar>y\<bar>" using assms by simp_all
  then have "log 2 \<bar>x\<bar> \<le> log 2 \<bar>y\<bar>" using assms(2) by simp
  then show ?thesis unfolding binade_def by (rule floor_mono)
qed

lemma binade_minus [simp]: "binade (- x) = binade x"
  by (simp add: binade_def)

lemma ulp_exp_minus [simp]: "ulp_exp (- x) = ulp_exp x"
  by (simp add: ulp_exp_def)

lemma ulp_exp_mono: "x \<noteq> 0 \<Longrightarrow> \<bar>x\<bar> \<le> \<bar>y\<bar> \<Longrightarrow> ulp_exp x \<le> ulp_exp y"
  using binade_mono [of x y] by (simp add: ulp_exp_def)

lemma pow2_mono: "i \<le> j \<Longrightarrow> (2::real) powi i \<le> 2 powi j"
  by (rule power_int_increasing) simp_all

lemma pow2_less_cancel: "(2::real) powi i < 2 powi j \<Longrightarrow> i < j"
proof (rule ccontr)
  assume a: "(2::real) powi i < 2 powi j" and "\<not> i < j"
  then have "j \<le> i" by simp
  then have "(2::real) powi j \<le> 2 powi i" by (rule pow2_mono)
  with a show False by simp
qed

text \<open>Below its binade's top: \<open>|x| < 2 powi (ulp_exp x + 53)\<close>.\<close>

lemma below_top: "\<bar>x\<bar> < 2 powi (ulp_exp x + 53)"
proof (cases "x = 0")
  case True
  then show ?thesis by simp
next
  case False
  have "binade x + 1 \<le> ulp_exp x + 53" by (simp add: ulp_exp_def)
  then have "(2::real) powi (binade x + 1) \<le> 2 powi (ulp_exp x + 53)" by (rule pow2_mono)
  with binade_bounds(2) [OF False] show ?thesis by linarith
qed

text \<open>A normal number is at least \<open>2 powi (ulp_exp x + 52)\<close>.\<close>

lemma above_bottom:
  assumes "x \<noteq> 0" and "- 1074 < ulp_exp x"
  shows "2 powi (ulp_exp x + 52) \<le> \<bar>x\<bar>"
proof -
  have e: "ulp_exp x = binade x - 52"
    using assms(2) by (simp add: ulp_exp_def max_def split: if_splits)
  from binade_bounds(1) [OF assms(1)] show ?thesis by (simp add: e)
qed

subsection \<open>Rounding to an integer\<close>

lemma round_half_even_of_int [simp]: "round_half_even (of_int k) = k"
  by (simp add: round_half_even_def)

lemma round_half_even_ge: "of_int k \<le> q \<Longrightarrow> k \<le> round_half_even q"
proof -
  assume "of_int k \<le> q"
  then have "k \<le> \<lfloor>q\<rfloor>" by (simp add: le_floor_iff)
  then show ?thesis by (simp add: round_half_even_def Let_def)
qed

lemma round_half_even_le: "q \<le> of_int k \<Longrightarrow> round_half_even q \<le> k"
proof -
  assume a: "q \<le> of_int k"
  show ?thesis
  proof (cases "q = of_int k")
    case True
    then show ?thesis by simp
  next
    case False
    with a have "q < of_int k" by simp
    then have "\<lfloor>q\<rfloor> < k" by (simp add: floor_less_iff)
    then show ?thesis by (simp add: round_half_even_def Let_def)
  qed
qed

subsection \<open>Rounding to binary64\<close>

lemma pow2_pos [simp]: "0 < (2::real) powi e"
  by simp

lemma round_half_even_zero [simp]: "round_half_even 0 = 0"
  by (simp add: round_half_even_def)

lemma mantissa_quotient: "a = of_int m * 2 powi e \<Longrightarrow> a / 2 powi e = (of_int m :: real)"
  by simp

lemma round_magnitude_nonneg: "0 \<le> round_magnitude x"
proof -
  have "0 \<le> \<bar>x\<bar> / 2 powi ulp_exp x" by simp
  then have "0 \<le> round_half_even (\<bar>x\<bar> / 2 powi ulp_exp x)"
    using round_half_even_ge [of 0] by simp
  then show ?thesis by (simp add: round_magnitude_def)
qed

lemma round_magnitude_zero [simp]: "round_magnitude 0 = 0"
  by (simp add: round_magnitude_def)

lemma round_magnitude_minus [simp]: "round_magnitude (- x) = round_magnitude x"
  by (simp add: round_magnitude_def)

lemma round64_zero [simp]: "round64 0 = Fin 0"
  by (simp add: round64_def)

lemma round64_minus: "round64 (- x) = jneg (round64 x)"
proof (cases "x = 0")
  case True
  then show ?thesis by simp
next
  case False
  then show ?thesis by (auto simp: round64_def signed_inf_def sgn_if)
qed

lemma round64_finite_bound: "round64 x = Fin y \<Longrightarrow> \<bar>y\<bar> < 2 ^ 1024"
proof -
  assume a: "round64 x = Fin y"
  then have lt: "round_magnitude x < 2 ^ 1024" and y: "y = sgn x * round_magnitude x"
    by (auto simp: round64_def signed_inf_def split: if_splits)
  have "\<bar>y\<bar> \<le> round_magnitude x"
    using round_magnitude_nonneg [of x] by (simp add: y abs_mult sgn_if)
  with lt show ?thesis by linarith
qed

lemma is_doubleD:
  assumes "is_double f"
  shows "round_magnitude f = \<bar>f\<bar>" and "\<bar>f\<bar> < 2 ^ 1024"
proof -
  from assms have r: "round64 f = Fin f" by (simp add: is_double_def)
  then show "\<bar>f\<bar> < 2 ^ 1024" by (rule round64_finite_bound)
  from r have "f = sgn f * round_magnitude f"
    by (auto simp: round64_def signed_inf_def split: if_splits)
  then show "round_magnitude f = \<bar>f\<bar>"
    by (cases "f = 0") (auto simp: sgn_if split: if_splits)
qed

lemma is_doubleI:
  assumes "\<bar>f\<bar> = of_int m * 2 powi ulp_exp f" and "\<bar>f\<bar> < 2 ^ 1024"
  shows "is_double f"
proof -
  have "\<bar>f\<bar> / 2 powi ulp_exp f = of_int m" using assms(1) by simp
  then have "round_magnitude f = \<bar>f\<bar>"
    by (simp add: round_magnitude_def assms(1) [symmetric])
  with assms(2) show ?thesis
    by (simp add: is_double_def round64_def sgn_if)
qed

lemma is_double_mantissa:
  assumes "is_double f"
  obtains m :: int where "\<bar>f\<bar> = of_int m * 2 powi ulp_exp f"
  using is_doubleD(1) [OF assms] that [of "round_half_even (\<bar>f\<bar> / 2 powi ulp_exp f)"]
  by (simp add: round_magnitude_def)

lemma is_double_minus [simp]: "is_double (- f) \<longleftrightarrow> is_double f"
  by (cases "round64 f") (auto simp: is_double_def round64_minus)

lemma is_double_zero [simp]: "is_double 0"
  by (simp add: is_double_def)

text \<open>Rounding never crosses a binary64 value (magnitudes).\<close>

lemma round_magnitude_ge:
  assumes "is_double f" and "0 \<le> f" and "f \<le> x"
  shows "f \<le> round_magnitude x"
proof (cases "f = 0")
  case True
  then show ?thesis by (simp add: round_magnitude_nonneg)
next
  case False
  with assms have fpos: "0 < f" and xpos: "0 < x" by simp_all
  obtain m :: int where m: "\<bar>f\<bar> = of_int m * 2 powi ulp_exp f"
    using assms(1) by (rule is_double_mantissa)
  have le: "ulp_exp f \<le> ulp_exp x"
    using ulp_exp_mono [of f x] False assms by simp
  show ?thesis
  proof (cases "ulp_exp f = ulp_exp x")
    case True
    have "of_int m = f / 2 powi ulp_exp x"
      using mantissa_quotient [OF m] fpos by (simp add: True)
    also have "\<dots> \<le> \<bar>x\<bar> / 2 powi ulp_exp x"
      using assms(3) xpos by (simp add: divide_right_mono)
    finally have "m \<le> round_half_even (\<bar>x\<bar> / 2 powi ulp_exp x)"
      by (rule round_half_even_ge)
    then have "of_int m * 2 powi ulp_exp x \<le> round_magnitude x"
      by (simp add: round_magnitude_def)
    then show ?thesis using m fpos by (simp add: True)
  next
    case False
    with le have lt: "ulp_exp f + 1 \<le> ulp_exp x" by simp
    then have n: "- 1074 < ulp_exp x" by (simp add: ulp_exp_def)
    have x0: "x \<noteq> 0" using xpos by simp
    have "(2::real) powi (ulp_exp x + 52) \<le> \<bar>x\<bar>" using x0 n by (rule above_bottom)
    then have "(2::real) powi 52 \<le> \<bar>x\<bar> / 2 powi ulp_exp x"
      by (simp add: power_int_add pos_le_divide_eq mult.commute)
    then have "of_int (2 ^ 52) \<le> \<bar>x\<bar> / 2 powi ulp_exp x" by simp
    then have "2 ^ 52 \<le> round_half_even (\<bar>x\<bar> / 2 powi ulp_exp x)"
      by (rule round_half_even_ge)
    then have "(of_int (2 ^ 52) :: real) \<le> of_int (round_half_even (\<bar>x\<bar> / 2 powi ulp_exp x))"
      by (simp only: of_int_le_iff)
    then have "of_int (2 ^ 52) * 2 powi ulp_exp x \<le> round_magnitude x"
      unfolding round_magnitude_def by (rule mult_right_mono) simp
    then have big: "(2::real) powi (ulp_exp x + 52) \<le> round_magnitude x"
      by (simp add: power_int_add mult.commute)
    have "f < 2 powi (ulp_exp f + 53)" using below_top [of f] fpos by simp
    also have "\<dots> \<le> 2 powi (ulp_exp x + 52)" using lt by (intro pow2_mono) simp
    finally show ?thesis using big by linarith
  qed
qed

lemma round_magnitude_le:
  assumes "is_double f" and "0 \<le> x" and "x \<le> f"
  shows "round_magnitude x \<le> f"
proof (cases "x = 0")
  case True
  with assms show ?thesis by simp
next
  case False
  with assms have xpos: "0 < x" and fpos: "0 < f" by simp_all
  obtain m :: int where m: "\<bar>f\<bar> = of_int m * 2 powi ulp_exp f"
    using assms(1) by (rule is_double_mantissa)
  have le: "ulp_exp x \<le> ulp_exp f"
    using ulp_exp_mono [of x f] False assms by simp
  show ?thesis
  proof (cases "ulp_exp x = ulp_exp f")
    case True
    have "\<bar>x\<bar> / 2 powi ulp_exp x \<le> f / 2 powi ulp_exp x"
      using assms(3) xpos by (simp add: divide_right_mono)
    also have "\<dots> = of_int m"
      using mantissa_quotient [OF m] fpos by (simp add: True)
    finally have "round_half_even (\<bar>x\<bar> / 2 powi ulp_exp x) \<le> m"
      by (rule round_half_even_le)
    then have "(of_int (round_half_even (\<bar>x\<bar> / 2 powi ulp_exp x)) :: real) \<le> of_int m"
      by (simp only: of_int_le_iff)
    then have "round_magnitude x \<le> of_int m * 2 powi ulp_exp x"
      unfolding round_magnitude_def by (rule mult_right_mono) simp
    then show ?thesis using m fpos by (simp add: True)
  next
    case False
    with le have lt: "ulp_exp x + 1 \<le> ulp_exp f" by simp
    then have n: "- 1074 < ulp_exp f" by (simp add: ulp_exp_def)
    have f0: "f \<noteq> 0" using fpos by simp
    have bot: "(2::real) powi (ulp_exp f + 52) \<le> f"
      using above_bottom [OF f0 n] fpos by simp
    have "\<bar>x\<bar> < 2 powi (ulp_exp x + 53)" by (rule below_top)
    then have "\<bar>x\<bar> / 2 powi ulp_exp x \<le> 2 powi 53"
      by (simp add: power_int_add pos_divide_le_eq mult.commute)
    then have "\<bar>x\<bar> / 2 powi ulp_exp x \<le> of_int (2 ^ 53)" by simp
    then have "round_half_even (\<bar>x\<bar> / 2 powi ulp_exp x) \<le> 2 ^ 53"
      by (rule round_half_even_le)
    then have "(of_int (round_half_even (\<bar>x\<bar> / 2 powi ulp_exp x)) :: real) \<le> of_int (2 ^ 53)"
      by (simp only: of_int_le_iff)
    then have "round_magnitude x \<le> of_int (2 ^ 53) * 2 powi ulp_exp x"
      unfolding round_magnitude_def by (rule mult_right_mono) simp
    then have "round_magnitude x \<le> 2 powi (ulp_exp x + 53)"
      by (simp add: power_int_add mult.commute)
    also have "\<dots> \<le> 2 powi (ulp_exp f + 52)" using lt by (intro pow2_mono) simp
    finally show ?thesis using bot by linarith
  qed
qed

text \<open>Rounding never crosses a binary64 value.\<close>

lemma round64_ge:
  assumes "is_double f" and "f \<le> x"
  shows "round64 x = PInf \<or> (\<exists>y. round64 x = Fin y \<and> f \<le> y)"
proof (cases "0 \<le> x")
  case True
  show ?thesis
  proof (cases "round_magnitude x \<ge> 2 ^ 1024")
    case True
    with \<open>0 \<le> x\<close> show ?thesis by (simp add: round64_def signed_inf_def)
  next
    case False
    then have r: "round64 x = Fin (sgn x * round_magnitude x)" by (simp add: round64_def)
    have "f \<le> sgn x * round_magnitude x"
    proof (cases "0 \<le> f")
      case True
      with assms have "f \<le> round_magnitude x" by (intro round_magnitude_ge)
      moreover have "x = 0 \<Longrightarrow> f = 0" using True assms(2) by simp
      ultimately show ?thesis using \<open>0 \<le> x\<close> by (cases "x = 0") (simp_all add: sgn_if)
    next
      case False
      moreover have "0 \<le> sgn x * round_magnitude x"
        using \<open>0 \<le> x\<close> round_magnitude_nonneg [of x] by (simp add: sgn_if)
      ultimately show ?thesis by linarith
    qed
    with r show ?thesis by simp
  qed
next
  case False
  then have xneg: "x < 0" by simp
  with assms have fneg: "f < 0" by simp
  have d: "is_double (- f)" using assms(1) by simp
  have "round_magnitude (- x) \<le> - f"
    using d xneg assms(2) by (intro round_magnitude_le) simp_all
  then have le: "round_magnitude x \<le> - f" by simp
  have "- f < 2 ^ 1024" using is_doubleD(2) [OF d] by simp
  with le have "\<not> round_magnitude x \<ge> 2 ^ 1024" by linarith
  then have "round64 x = Fin (- round_magnitude x)"
    using xneg by (simp add: round64_def sgn_if)
  with le show ?thesis by simp
qed

lemma round64_le:
  assumes "is_double f" and "x \<le> f"
  shows "round64 x = NInf \<or> (\<exists>y. round64 x = Fin y \<and> y \<le> f)"
proof -
  have "round64 (- x) = PInf \<or> (\<exists>y. round64 (- x) = Fin y \<and> - f \<le> y)"
    using assms by (intro round64_ge) simp_all
  then show ?thesis
    by (cases "round64 x") (auto simp: round64_minus)
qed

text \<open>A magnitude of \<open>2^1024\<close> or more rounds to an infinity.\<close>

lemma round64_overflow:
  assumes "2 ^ 1024 \<le> \<bar>x\<bar>"
  shows "round64 x = signed_inf (x < 0)"
proof -
  have x0: "x \<noteq> 0" using assms by auto
  have "(2::real) powi 1024 \<le> \<bar>x\<bar>" using assms by simp
  also have "\<bar>x\<bar> < 2 powi (binade x + 1)" using binade_bounds(2) [OF x0] .
  finally have "(1024::int) < binade x + 1" by (rule pow2_less_cancel)
  then have n: "- 1074 < ulp_exp x" and e: "ulp_exp x + 52 = binade x"
    by (simp_all add: ulp_exp_def)
  have "(2::real) powi (ulp_exp x + 52) \<le> \<bar>x\<bar>" using x0 n by (rule above_bottom)
  then have "(2::real) powi 52 \<le> \<bar>x\<bar> / 2 powi ulp_exp x"
    by (simp add: power_int_add pos_le_divide_eq mult.commute)
  then have "of_int (2 ^ 52) \<le> \<bar>x\<bar> / 2 powi ulp_exp x" by simp
  then have "2 ^ 52 \<le> round_half_even (\<bar>x\<bar> / 2 powi ulp_exp x)"
    by (rule round_half_even_ge)
  then have "(of_int (2 ^ 52) :: real) \<le> of_int (round_half_even (\<bar>x\<bar> / 2 powi ulp_exp x))"
    by (simp only: of_int_le_iff)
  then have "of_int (2 ^ 52) * 2 powi ulp_exp x \<le> round_magnitude x"
    unfolding round_magnitude_def by (rule mult_right_mono) simp
  then have "(2::real) powi (ulp_exp x + 52) \<le> round_magnitude x"
    by (simp add: power_int_add mult.commute)
  moreover have "(2::real) powi 1024 \<le> 2 powi (ulp_exp x + 52)"
    using \<open>1024 < binade x + 1\<close> e by (intro pow2_mono) simp
  ultimately have "2 ^ 1024 \<le> round_magnitude x" by simp
  then show ?thesis by (simp add: round64_def)
qed

text \<open>
  An integer of magnitude below \<open>2^53\<close> scaled by a power of two between \<open>2^-1074\<close>
  and \<open>2^971\<close> is a binary64 value.
\<close>

lemma is_double_scaled:
  assumes k: "\<bar>k\<bar> < 2 ^ 53" and j: "- 1074 \<le> j" "j \<le> 971"
  shows "is_double (of_int k * 2 powi j)"
proof (cases "k = 0")
  case True
  then show ?thesis by simp
next
  case False
  let ?x = "of_int k * (2::real) powi j"
  have x0: "?x \<noteq> 0" using False by simp
  have ax: "\<bar>?x\<bar> = of_int \<bar>k\<bar> * 2 powi j" by (simp add: abs_mult)
  have "(of_int \<bar>k\<bar> :: real) < of_int (2 ^ 53)" using k by (simp only: of_int_less_iff)
  then have kb: "(of_int \<bar>k\<bar> :: real) < 2 powi 53" by simp
  then have "\<bar>?x\<bar> < 2 powi 53 * 2 powi j" by (simp add: ax)
  also have "\<dots> = 2 powi (j + 53)" by (simp add: power_int_add mult.commute)
  finally have top: "\<bar>?x\<bar> < 2 powi (j + 53)" .
  have "2 powi binade ?x \<le> \<bar>?x\<bar>" using binade_bounds(1) [OF x0] .
  with top have "(2::real) powi binade ?x < 2 powi (j + 53)" by linarith
  then have b: "binade ?x < j + 53" by (rule pow2_less_cancel)
  have e: "ulp_exp ?x \<le> j" using b j by (simp add: ulp_exp_def)
  define d where "d = nat (j - ulp_exp ?x)"
  have dj: "j = ulp_exp ?x + int d" using e by (simp add: d_def)
  have "(2::real) powi j = 2 powi int d * 2 powi ulp_exp ?x"
    by (subst dj) (simp add: power_int_add mult.commute)
  then have "\<bar>?x\<bar> = of_int (\<bar>k\<bar> * 2 ^ d) * 2 powi ulp_exp ?x"
    by (simp add: ax)
  moreover have "\<bar>?x\<bar> < 2 ^ 1024"
  proof -
    have "(2::real) powi (j + 53) \<le> 2 powi 1024" using j by (intro pow2_mono) simp
    with top show ?thesis by simp
  qed
  ultimately show ?thesis by (rule is_doubleI)
qed

lemma is_double_of_int: "\<bar>k\<bar> < 2 ^ 53 \<Longrightarrow> is_double (of_int k)"
  using is_double_scaled [of k 0] by simp

lemma round64_of_int: "\<bar>k\<bar> < 2 ^ 53 \<Longrightarrow> round64 (of_int k) = Fin (of_int k)"
  using is_double_of_int [of k] by (simp add: is_double_def)

text \<open>Doubling a binary64 value is exact unless it overflows.\<close>

lemma is_double_twice:
  assumes "is_double a" and "\<bar>a\<bar> < 2 ^ 1023"
  shows "is_double (2 * a)"
proof (cases "a = 0")
  case True
  then show ?thesis by simp
next
  case False
  obtain m :: int where m: "\<bar>a\<bar> = of_int m * 2 powi ulp_exp a"
    using assms(1) by (rule is_double_mantissa)
  have a0: "2 * a \<noteq> 0" using False by simp
  have "2 powi (binade a + 1) \<le> \<bar>2 * a\<bar>"
    using binade_bounds(1) [OF False] by (simp add: power_int_add)
  moreover have "\<bar>2 * a\<bar> < 2 powi (binade a + 1 + 1)"
  proof -
    have "(2::real) powi (binade a + 1 + 1) = 2 powi (binade a + 1) * 2"
      by (subst power_int_add) simp_all
    then show ?thesis using binade_bounds(2) [OF False] by simp
  qed
  ultimately have b: "binade (2 * a) = binade a + 1" by (rule binade_eqI)
  have bound: "\<bar>2 * a\<bar> < 2 ^ 1024" using assms(2) by simp
  show ?thesis
  proof (cases "- 1074 \<le> binade a - 52")
    case True
    then have e: "ulp_exp a = binade a - 52" "ulp_exp (2 * a) = ulp_exp a + 1"
      by (simp_all add: ulp_exp_def b)
    have "\<bar>2 * a\<bar> = of_int m * 2 powi ulp_exp (2 * a)"
      using m by (simp add: e(2) power_int_add)
    then show ?thesis using bound by (rule is_doubleI)
  next
    case False
    then have e: "ulp_exp a = - 1074" "ulp_exp (2 * a) = - 1074"
      by (simp_all add: ulp_exp_def b)
    have "\<bar>2 * a\<bar> = of_int (2 * m) * 2 powi ulp_exp (2 * a)"
      using m by (simp add: e)
    then show ?thesis using bound by (rule is_doubleI)
  qed
qed

lemma round64_between:
  assumes "is_double lo" and "is_double hi" and "lo \<le> x" and "x \<le> hi"
  shows "\<exists>y. round64 x = Fin y \<and> lo \<le> y \<and> y \<le> hi"
proof -
  have "round64 x = PInf \<or> (\<exists>y. round64 x = Fin y \<and> lo \<le> y)"
    using assms(1,3) by (rule round64_ge)
  moreover have "round64 x = NInf \<or> (\<exists>y. round64 x = Fin y \<and> y \<le> hi)"
    using assms(2,4) by (rule round64_le)
  ultimately show ?thesis by auto
qed

text \<open>A magnitude below \<open>2^-1075\<close>, half the least positive binary64 value, rounds to 0.\<close>

lemma round64_underflow:
  assumes "\<bar>x\<bar> < 2 powi (- 1075)"
  shows "round64 x = Fin 0"
proof (cases "x = 0")
  case True
  then show ?thesis by simp
next
  case False
  have "2 powi binade x \<le> \<bar>x\<bar>" using False by (rule binade_bounds(1))
  with assms have "(2::real) powi binade x < 2 powi (- 1075)" by linarith
  then have "binade x < - 1075" by (rule pow2_less_cancel)
  then have e: "ulp_exp x = - 1074" by (simp add: ulp_exp_def)
  have "(2::real) powi (- 1075) = 2 powi (- 1074) * 2 powi (- 1)"
    by (subst power_int_add [symmetric]) simp_all
  then have half: "(2::real) powi (- 1075) = 2 powi (- 1074) / 2"
    by (simp add: power_int_minus)
  have q: "\<bar>x\<bar> / 2 powi (- 1074) < 1 / 2"
  proof -
    have "\<bar>x\<bar> < 2 powi (- 1074) / 2" using assms by (simp only: half)
    then have "\<bar>x\<bar> < (1 / 2) * 2 powi (- 1074)" by simp
    then show ?thesis by (simp only: pos_divide_less_eq pow2_pos)
  qed
  have q0: "0 \<le> \<bar>x\<bar> / 2 powi (- 1074)" by simp
  have "\<lfloor>\<bar>x\<bar> / 2 powi (- 1074)\<rfloor> = 0"
    using q q0 by (simp only: floor_eq_iff) simp
  then have "round_half_even (\<bar>x\<bar> / 2 powi (- 1074)) = 0"
    using q by (simp add: round_half_even_def)
  then have "round_magnitude x = 0"
    by (simp add: round_magnitude_def e)
  then show ?thesis by (simp add: round64_def)
qed

lemma round64_tiny:
  assumes "\<bar>k\<bar> < 2 ^ m" and "1075 + m \<le> n"
  shows "round64 (of_int k / 2 ^ n) = Fin 0"
proof -
  have "(of_int \<bar>k\<bar> :: real) < of_int (2 ^ m)" using assms(1) by (simp only: of_int_less_iff)
  then have "(of_int \<bar>k\<bar> :: real) < 2 ^ m" by simp
  then have "of_int \<bar>k\<bar> / 2 ^ n < (2 ^ m / 2 ^ n :: real)" by (simp add: divide_strict_right_mono)
  also have "(2 ^ m / 2 ^ n :: real) = 2 powi (int m - int n)"
    by (simp add: power_int_diff)
  also have "\<dots> \<le> 2 powi (- 1075)" using assms(2) by (intro pow2_mono) simp
  finally have "\<bar>of_int k / 2 ^ n :: real\<bar> < 2 powi (- 1075)" by simp
  then show ?thesis by (rule round64_underflow)
qed

subsection \<open>Binary64 values used in the evaluations\<close>

lemma round64_numeral:
  "(numeral n :: int) < 2 ^ 53 \<Longrightarrow> round64 (numeral n) = Fin (numeral n)"
  using round64_of_int [of "numeral n"] by simp

lemma round64_neg_numeral:
  "(numeral n :: int) < 2 ^ 53 \<Longrightarrow> round64 (- numeral n) = Fin (- numeral n)"
  using round64_of_int [of "- numeral n"] by simp

lemma round64_one: "round64 1 = Fin 1"
  using round64_of_int [of 1] by simp

lemma round64_neg_one: "round64 (- 1) = Fin (- 1)"
  using round64_of_int [of "- 1"] by simp

lemma round64_dyadic:
  "\<bar>k\<bar> < 2 ^ 53 \<Longrightarrow> n \<le> 1074 \<Longrightarrow> round64 (of_int k / 2 ^ n) = Fin (of_int k / 2 ^ n)"
proof -
  assume k: "\<bar>k\<bar> < 2 ^ 53" and n: "n \<le> 1074"
  have "is_double (of_int k * 2 powi (- int n))"
    using k n by (intro is_double_scaled) simp_all
  moreover have "of_int k * 2 powi (- int n) = (of_int k / 2 ^ n :: real)"
    by (simp add: power_int_minus field_simps)
  ultimately show ?thesis by (simp add: is_double_def)
qed

lemmas round64_eval = round64_numeral round64_neg_numeral round64_one round64_neg_one

text \<open>
  Two roundings, as the code performs them: \<open>2^53 + 1\<close> lies halfway between the binary64
  values \<open>2^53\<close> and \<open>2^53 + 2\<close> and goes to the one with the even mantissa, and so does
  \<open>2^53 + 3\<close>, which goes up to \<open>2^53 + 4\<close>.
\<close>

lemma jadd_rounds_to_even:
  "jadd (Fin (2 ^ 53)) (Fin 1) = Fin (2 ^ 53)"
  "jadd (Fin (2 ^ 53)) (Fin 3) = Fin (2 ^ 53 + 4)"
proof -
  have b: "binade (2 ^ 53 + 1) = 53" "binade (2 ^ 53 + 3) = 53"
    by (rule binade_eqI; simp)+
  have r: "round_half_even ((2 ^ 53 + 1) / 2) = 2 ^ 52"
      "round_half_even ((2 ^ 53 + 3) / 2) = 2 ^ 52 + 2"
    by (simp_all add: round_half_even_def)
  have "round_magnitude (2 ^ 53 + 1) = 2 ^ 53" "round_magnitude (2 ^ 53 + 3) = 2 ^ 53 + 4"
    using r b by (simp_all add: round_magnitude_def ulp_exp_def)
  then show "jadd (Fin (2 ^ 53)) (Fin 1) = Fin (2 ^ 53)"
    "jadd (Fin (2 ^ 53)) (Fin 3) = Fin (2 ^ 53 + 4)"
    by (simp_all add: round64_def)
qed

subsection \<open>Evaluation rules\<close>

lemmas string_eval = trim_def is_space_def toLowerCase_def lower_char_def char_of_eq_iff
  is_digit_def decimal_val_def digit_val_def

lemmas builtin_eval = example_builtins_def example_StringToNumber_def round64_eval

lemma cleanName_a: "cleanName ''a'' = ''a''"
  by (simp add: cleanName_def string_eval)

lemma cleanRow_one: "cleanRow [k] [(k', v)] = [(k, v)]"
  by (simp add: cleanRow_def columnKey_def elem_at_def get_prop_def)

lemma Math_pow_zero: "0 < n \<Longrightarrow> Math_pow B (Fin 0) n = Fin 0"
  by (cases n) simp_all

lemma Math_pow_example:
  "0 < n \<Longrightarrow> r \<noteq> 0 \<Longrightarrow> Math_pow example_builtins (Fin r) n = round64 (r ^ n)"
  by (cases n) (simp_all add: example_builtins_def)

lemma analyzeColumn_fields:
  "name (analyzeColumn B d nm) = nm"
  "ctype (analyzeColumn B d nm) = detectColumnType B (map (\<lambda>row. get_prop row nm) d)"
  "missingData (analyzeColumn B d nm) = calculateMissingData (map (\<lambda>row. get_prop row nm) d)"
  "sampleValues (analyzeColumn B d nm)
     = take 5 (uniq (filter nonNull (map (\<lambda>row. get_prop row nm) d)))"
  by (simp_all add: analyzeColumn_def Let_def)

lemma analyzeColumn_numeric:
  assumes "detectColumnType B (map (\<lambda>row. get_prop row nm) d) = TInteger
         \<or> detectColumnType B (map (\<lambda>row. get_prop row nm) d) = TFloat"
  shows "stats (analyzeColumn B d nm)
           = NumericStats (calculateNumericStats B (map (\<lambda>row. get_prop row nm) d))"
  using assms by (auto simp: analyzeColumn_def Let_def)

lemma profile_one_column:
  "analyzeDataset B (Some [[(''a'', v)]]) fname = Inr p
   \<longleftrightarrow> p = \<lparr>filename = (case fname of None \<Rightarrow> ''dataset'' | Some f \<Rightarrow> f),
            data = [[(''a'', v)]],
            columns = [analyzeColumn B [[(''a'', v)]] ''a''],
            correlations = [],
            chartSuggestions = suggestChartTypes [analyzeColumn B [[(''a'', v)]] ''a'']\<rparr>"
  by (auto simp: analyzeDataset_def Let_def cleanName_a cleanRow_one analyzeColumn_fields)

lemma profile_two_rows:
  "analyzeDataset B (Some [[(''a'', v)], [(''a'', w)]]) fname = Inr p
   \<longleftrightarrow> p = \<lparr>filename = (case fname of None \<Rightarrow> ''dataset'' | Some f \<Rightarrow> f),
            data = [[(''a'', v)], [(''a'', w)]],
            columns = [analyzeColumn B [[(''a'', v)], [(''a'', w)]] ''a''],
            correlations = [],
            chartSuggestions = suggestChartTypes [analyzeColumn B [[(''a'', v)], [(''a'', w)]] ''a'']\<rparr>"
  by (auto simp: analyzeDataset_def Let_def cleanName_a cleanRow_one analyzeColumn_fields)

lemma detect_five: "detectColumnType B [Num (Fin 5)] = TInteger"
  by (simp add: detectColumnType_def nonNull_def numericLike_def)

lemma stats_five:
  "calculateNumericStats B [Num (Fin 5)] =
     \<lparr>count = 1, mean = Some (Fin 5), median = Some (Fin 5), std = Some NaN,
      min_v = Some (Fin 5), max_v = Some (Fin 5), q1 = Some (Fin 5), q3 = Some (Fin 5),
      variance = Some NaN, skewness = None, kurtosis = None\<rparr>"
  by (simp add: calculateNumericStats_def sortedNumericValues_def mean_of_def median_of_def
        variance_of_def std_of_def skewness_of_def kurtosis_of_def lodash_mean_def
        elem_at_def q1Index_def q3Index_def jsub_def Math_pow_zero round_to_def round64_eval)

subsection \<open>Type inference\<close>

lemma length_filter_eq_iff: "length (filter P xs) = length xs \<longleftrightarrow> list_all P xs"
proof (induction xs)
  case Nil
  show ?case by simp
next
  case (Cons x xs)
  have le: "length (filter P xs) \<le> length xs" by (rule length_filter_le)
  show ?case
  proof (cases "P x")
    case True
    with Cons show ?thesis by simp
  next
    case False
    from le have "length (filter P xs) \<noteq> Suc (length xs)" by linarith
    with False show ?thesis by simp
  qed
qed

lemma native_booleans_booleanLike:
  "list_all (\<lambda>v. \<exists>b. v = Bool b) S \<Longrightarrow> list_all booleanLike S"
  by (auto simp: list_all_iff)

lemma boolean_words_booleanLike:
  "list_all (\<lambda>v. \<exists>s. v = Str s
      \<and> toLowerCase s \<in> {''true'', ''false'', ''yes'', ''no'', ''1'', ''0''}) S
   \<Longrightarrow> list_all booleanLike S"
  by (auto simp: list_all_iff)

text \<open>The chain of checks of \<open>detectColumnType\<close>, with each length test read as "all".\<close>

lemma detectColumnType_cases:
  "detectColumnType B values =
     (let S = filter nonNull values in
      if S = [] then TUnknown
      else if list_all (numericLike B) S then
        (if list_all (\<lambda>v. Number_isInteger (ToNumber B v)) S then TInteger else TFloat)
      else if list_all booleanLike S then TBoolean
      else if list_all (date_valid B) S then TDate else TString)"
proof -
  have "list_all (numericLike B) S \<Longrightarrow> filter (numericLike B) S = S" for S
    by (simp add: list_all_iff)
  then show ?thesis
    by (simp add: detectColumnType_def Let_def length_filter_eq_iff del: filter_filter)
qed

text \<open>
  C3. \<open>detectColumnType\<close> returns boolean exactly when every non-null value is
  boolean-like (a native boolean, or a string that lower-cases to one of true, false, yes,
  no, 1, 0) and the numeric check, which runs first, has failed. In particular a column
  whose non-null values are all native booleans, or all such strings, is typed boolean
  unless all of them convert to finite numbers; and a column with at least one non-null
  value all of whose non-null values convert to finite numbers is typed integer or float.
\<close>

theorem detectColumnType_boolean:
  "(detectColumnType B values = TBoolean
      \<longleftrightarrow> list_all booleanLike (filter nonNull values)
           \<and> \<not> list_all (numericLike B) (filter nonNull values))
   \<and> ((list_all (\<lambda>v. \<exists>b. v = Bool b) (filter nonNull values)
         \<or> list_all (\<lambda>v. \<exists>s. v = Str s
                \<and> toLowerCase s \<in> {''true'', ''false'', ''yes'', ''no'', ''1'', ''0''})
              (filter nonNull values))
        \<and> \<not> list_all (numericLike B) (filter nonNull values)
        \<longrightarrow> detectColumnType B values = TBoolean)
   \<and> (filter nonNull values \<noteq> [] \<and> list_all (numericLike B) (filter nonNull values)
        \<longrightarrow> detectColumnType B values \<in> {TInteger, TFloat})"
proof (cases "filter nonNull values = []")
  case True
  then show ?thesis by (simp add: detectColumnType_cases)
next
  case False
  then show ?thesis
    using native_booleans_booleanLike [of "filter nonNull values"]
          boolean_words_booleanLike [of "filter nonNull values"]
    by (auto simp: detectColumnType_cases Let_def)
qed

theorem detectColumnType_boolean_witness:
  "list_all booleanLike (filter nonNull [Str ''true'', Str ''No'', Null])
   \<and> \<not> list_all (numericLike example_builtins) (filter nonNull [Str ''true'', Str ''No'', Null])
   \<and> detectColumnType example_builtins [Str ''true'', Str ''No'', Null] = TBoolean"
  using detectColumnType_boolean [of example_builtins "[Str ''true'', Str ''No'', Null]"]
  by (simp add: nonNull_def numericLike_def string_eval builtin_eval)

subsection \<open>The guard of analyzeDataset\<close>

text \<open>
  The row sequence \<open>[{}]\<close> holds one row, so it passes the guard: the result is not the
  empty-dataset error.
\<close>

theorem empty_row_counterexample:
  "\<not> (analyzeDataset example_builtins (Some [[]]) None = Inl DatasetEmptyOrInvalid)"
  by (simp add: analyzeDataset_def)

text \<open>
  C4, amended. \<open>analyzeDataset\<close> fails with the empty-dataset error exactly when the row
  sequence is missing or has no rows, and returns a profile otherwise. The sequence
  \<open>[{}]\<close> of one row without columns is not empty: it yields a profile with no columns.
\<close>

theorem analyzeDataset_error_iff:
  "(analyzeDataset B input fname = Inl DatasetEmptyOrInvalid
      \<longleftrightarrow> input = None \<or> input = Some [])
   \<and> (\<exists>p. analyzeDataset B (Some [[]]) fname = Inr p \<and> columns p = [] \<and> data p = [[]])"
  by (simp add: analyzeDataset_def cleanRow_def Let_def split: option.splits)

theorem analyzeDataset_error_iff_witness:
  "analyzeDataset example_builtins (Some []) None = Inl DatasetEmptyOrInvalid
   \<and> analyzeDataset example_builtins None None = Inl DatasetEmptyOrInvalid
   \<and> analyzeDataset example_builtins (Some [[(''a'', Num (Fin 5))]]) None
       \<noteq> Inl DatasetEmptyOrInvalid"
  using analyzeDataset_error_iff [of example_builtins "Some []" None]
        analyzeDataset_error_iff [of example_builtins None None]
        analyzeDataset_error_iff [of example_builtins "Some [[(''a'', Num (Fin 5))]]" None]
  by simp

subsection \<open>Column profiles\<close>

lemma columns_of_profile:
  assumes "analyzeDataset B input fname = Inr p"
  shows "\<exists>rows. input = Some rows \<and> rows \<noteq> []
           \<and> data p = map (cleanRow (map cleanName (map fst (rows ! 0)))) rows
           \<and> columns p = map (analyzeColumn B (data p)) (map cleanName (map fst (rows ! 0)))"
  using assms
  by (cases input) (auto simp: analyzeDataset_def Let_def split: if_splits)

lemma column_of_profile:
  assumes "analyzeDataset B input fname = Inr p" and "c \<in> set (columns p)"
  shows "c = analyzeColumn B (data p) (name c)"
proof -
  from columns_of_profile [OF assms(1)] assms(2)
  obtain nm where "c = analyzeColumn B (data p) nm" by auto
  moreover have "name (analyzeColumn B d nm) = nm" for d
    by (simp add: analyzeColumn_def Let_def)
  ultimately show ?thesis by simp
qed

text \<open>
  C9. In every column profile assembled by \<open>analyzeDataset\<close> the stats record has the
  numeric shape if and only if the inferred type is integer or float; columns typed boolean,
  date, string or unknown get the categorical shape; and the outliers sequence is non-empty
  only for integer and float columns.
\<close>

theorem stats_shape_follows_type:
  assumes "analyzeDataset B input fname = Inr p" and "c \<in> set (columns p)"
  shows "((\<exists>ns. stats c = NumericStats ns) \<longleftrightarrow> ctype c = TInteger \<or> ctype c = TFloat)
       \<and> ((\<exists>cs. stats c = CategoricalStats cs)
             \<longleftrightarrow> ctype c \<in> {TBoolean, TDate, TString, TUnknown})
       \<and> (outliers c \<noteq> [] \<longrightarrow> ctype c = TInteger \<or> ctype c = TFloat)"
proof -
  let ?c = "analyzeColumn B (data p) (name c)"
  have "((\<exists>ns. stats ?c = NumericStats ns) \<longleftrightarrow> ctype ?c = TInteger \<or> ctype ?c = TFloat)
       \<and> ((\<exists>cs. stats ?c = CategoricalStats cs)
             \<longleftrightarrow> ctype ?c \<in> {TBoolean, TDate, TString, TUnknown})
       \<and> (outliers ?c \<noteq> [] \<longrightarrow> ctype ?c = TInteger \<or> ctype ?c = TFloat)"
    by (cases "detectColumnType B (map (\<lambda>row. get_prop row (name c)) (data p))")
       (simp_all add: analyzeColumn_def Let_def)
  with column_of_profile [OF assms] show ?thesis by simp
qed

theorem stats_shape_follows_type_witness:
  "\<exists>p c. analyzeDataset example_builtins (Some [[(''a'', Num (Fin 5))]]) None = Inr p
      \<and> c \<in> set (columns p)
      \<and> ctype c = TInteger
      \<and> (\<exists>ns. stats c = NumericStats ns)
      \<and> (\<nexists>cs. stats c = CategoricalStats cs)"
proof -
  obtain p where p: "analyzeDataset example_builtins (Some [[(''a'', Num (Fin 5))]]) None = Inr p"
    by (simp add: profile_one_column)
  define c where "c = analyzeColumn example_builtins [[(''a'', Num (Fin 5))]] ''a''"
  have mem: "c \<in> set (columns p)"
    using p by (simp add: profile_one_column c_def)
  have t: "ctype c = TInteger"
    by (simp add: c_def analyzeColumn_fields get_prop_def detect_five)
  from stats_shape_follows_type [OF p mem] t
  have "(\<exists>ns. stats c = NumericStats ns) \<and> (\<nexists>cs. stats c = CategoricalStats cs)"
    by simp
  with p mem t show ?thesis by blast
qed

lemma set_uniq: "set (uniq xs) = set xs"
  by (induction xs rule: uniq.induct) auto

lemma distinct_uniq: "distinct (uniq xs)"
  by (induction xs rule: uniq.induct) (auto simp: set_uniq)

text \<open>
  C10. The sample values of a column profile are the first five distinct values of the
  column that are not null, not undefined and not the empty string: at most five, pairwise
  distinct, each a value of the column. Nothing else is filtered, so a string of white space
  and a NaN number, both counted as missing by \<open>calculateMissingData\<close>, do appear among the
  sample values (the dataset \<open>[{a: "  "}, {a: NaN}]\<close>).
\<close>

theorem sampleValues_keep_blank_and_NaN:
  "(analyzeDataset B input fname = Inr p \<and> c \<in> set (columns p) \<longrightarrow>
      sampleValues c
        = take 5 (uniq (filter (\<lambda>v. v \<noteq> Null \<and> v \<noteq> Undefined \<and> v \<noteq> Str '''')
                          (map (\<lambda>row. get_prop row (name c)) (data p))))
      \<and> length (sampleValues c) \<le> 5
      \<and> distinct (sampleValues c)
      \<and> (\<forall>v \<in> set (sampleValues c).
            v \<noteq> Null \<and> v \<noteq> Undefined \<and> v \<noteq> Str ''''
            \<and> v \<in> set (map (\<lambda>row. get_prop row (name c)) (data p))))
   \<and> (\<exists>q d. analyzeDataset B (Some [[(''a'', Str ''  '')], [(''a'', Num NaN)]]) None = Inr q
          \<and> columns q = [d]
          \<and> sampleValues d = [Str ''  '', Num NaN]
          \<and> isMissing (Str ''  '') \<and> isMissing (Num NaN)
          \<and> missing (missingData d) = 2 \<and> total (missingData d) = 2)"
proof (intro conjI impI)
  assume a: "analyzeDataset B input fname = Inr p \<and> c \<in> set (columns p)"
  let ?vs = "map (\<lambda>row. get_prop row (name c)) (data p)"
  have c: "c = analyzeColumn B (data p) (name c)"
    using a column_of_profile by blast
  have nn: "nonNull = (\<lambda>v. v \<noteq> Null \<and> v \<noteq> Undefined \<and> v \<noteq> Str '''')"
    by (rule ext) (simp add: nonNull_def)
  have s: "sampleValues c = take 5 (uniq (filter nonNull ?vs))"
    using c analyzeColumn_fields(4) [of B "data p" "name c"] by simp
  then show "sampleValues c
        = take 5 (uniq (filter (\<lambda>v. v \<noteq> Null \<and> v \<noteq> Undefined \<and> v \<noteq> Str '''') ?vs))"
    by (simp only: nn)
  show "length (sampleValues c) \<le> 5" by (simp add: s)
  show "distinct (sampleValues c)" by (simp add: s distinct_uniq)
  show "\<forall>v \<in> set (sampleValues c).
            v \<noteq> Null \<and> v \<noteq> Undefined \<and> v \<noteq> Str '''' \<and> v \<in> set ?vs"
  proof
    fix v assume "v \<in> set (sampleValues c)"
    then have "v \<in> set (uniq (filter nonNull ?vs))"
      unfolding s by (rule in_set_takeD)
    then have "v \<in> set (filter nonNull ?vs)" by (simp only: set_uniq)
    then show "v \<noteq> Null \<and> v \<noteq> Undefined \<and> v \<noteq> Str '''' \<and> v \<in> set ?vs"
      by (simp add: nonNull_def)
  qed
next
  show "\<exists>q d. analyzeDataset B (Some [[(''a'', Str ''  '')], [(''a'', Num NaN)]]) None = Inr q
          \<and> columns q = [d]
          \<and> sampleValues d = [Str ''  '', Num NaN]
          \<and> isMissing (Str ''  '') \<and> isMissing (Num NaN)
          \<and> missing (missingData d) = 2 \<and> total (missingData d) = 2"
    by (simp add: profile_two_rows analyzeColumn_fields get_prop_def nonNull_def
          calculateMissingData_def string_eval)
qed

theorem sampleValues_keep_blank_and_NaN_witness:
  "\<exists>p c. analyzeDataset example_builtins (Some [[(''a'', Str ''x'')], [(''a'', Null)]]) None = Inr p
      \<and> c \<in> set (columns p)
      \<and> sampleValues c = [Str ''x'']
      \<and> length (sampleValues c) \<le> 5"
proof -
  obtain p where p: "analyzeDataset example_builtins (Some [[(''a'', Str ''x'')], [(''a'', Null)]]) None = Inr p"
    by (simp add: profile_two_rows)
  define c where "c = analyzeColumn example_builtins [[(''a'', Str ''x'')], [(''a'', Null)]] ''a''"
  have cs: "columns p = [c]" and d: "data p = [[(''a'', Str ''x'')], [(''a'', Null)]]"
    using p by (simp_all add: profile_two_rows c_def)
  then have mem: "c \<in> set (columns p)" by simp
  have nm: "name c = ''a''" by (simp add: c_def analyzeColumn_fields)
  from sampleValues_keep_blank_and_NaN [of example_builtins
         "Some [[(''a'', Str ''x'')], [(''a'', Null)]]" None p c] p mem
  have "sampleValues c = [Str ''x''] \<and> length (sampleValues c) \<le> 5"
    by (simp add: d nm get_prop_def)
  with p mem show ?thesis by blast
qed

subsection \<open>Numeric statistics\<close>

lemma q1Index_div: "q1Index n = n div 4"
proof -
  have "real n * 0.25 = real n / real 4" by simp
  then have "\<lfloor>real n * 0.25\<rfloor> = \<lfloor>real n / real 4\<rfloor>" by (simp only:)
  also have "\<dots> = int (n div 4)" by (rule floor_divide_of_nat_eq)
  finally show ?thesis by (simp add: q1Index_def)
qed

lemma q3Index_div: "q3Index n = (3 * n) div 4"
proof -
  have "real n * 0.75 = real (3 * n) / real 4" by simp
  then have "\<lfloor>real n * 0.75\<rfloor> = \<lfloor>real (3 * n) / real 4\<rfloor>" by (simp only:)
  also have "\<dots> = int ((3 * n) div 4)" by (rule floor_divide_of_nat_eq)
  finally show ?thesis by (simp add: q3Index_def)
qed

lemma isFinite_iff: "isFinite x \<longleftrightarrow> (\<exists>r. x = Fin r)"
  by (cases x) simp_all

lemma sortedNumericValues_finite:
  "x \<in> set (sortedNumericValues B values) \<Longrightarrow> x = Fin (fin_val x)"
  by (auto simp: sortedNumericValues_def isFinite_iff)

lemma sortedNumericValues_sorted: "sorted (map fin_val (sortedNumericValues B values))"
  by (simp add: sortedNumericValues_def)

lemma finite_nth:
  assumes "\<And>x. x \<in> set nums \<Longrightarrow> x = Fin (fin_val x)" and "i < length nums"
  shows "nums ! i = Fin (map fin_val nums ! i)"
  using assms by (metis nth_map nth_mem)

lemma calculateNumericStats_nonempty:
  assumes "sortedNumericValues B values = nums" and "nums \<noteq> []"
  shows "calculateNumericStats B values =
     \<lparr>count = length nums,
      mean = Some (Number_toFixed 4 (mean_of nums)),
      median = median_of nums,
      std = Some (Number_toFixed 4 (std_of B nums)),
      min_v = Some (nums ! 0),
      max_v = Some (nums ! (length nums - 1)),
      q1 = Some (nums ! (length nums div 4)),
      q3 = Some (nums ! (3 * length nums div 4)),
      variance = Some (Number_toFixed 4 (variance_of B nums)),
      skewness = falsy_to_null (skewness_of B nums),
      kurtosis = falsy_to_null (kurtosis_of B nums)\<rparr>"
proof -
  have "0 < length nums" using assms(2) by simp
  then have "length nums div 4 < length nums" "3 * length nums div 4 < length nums"
    by presburger+
  with assms show ?thesis
    by (simp add: calculateNumericStats_def Let_def q1Index_div q3Index_div elem_at_def)
qed

lemma calculateNumericStats_empty:
  assumes "sortedNumericValues B values = []"
  shows "calculateNumericStats B values =
     \<lparr>count = 0, mean = None, median = None, std = None, min_v = None, max_v = None,
      q1 = None, q3 = None, variance = None, skewness = None, kurtosis = None\<rparr>"
  using assms by (simp add: calculateNumericStats_def)

text \<open>
  C1. The specification requires that every numeric field of a column's stats record is
  a finite number or null. The code evaluated on the one-row dataset \<open>[{a: 5}]\<close>: the
  column is typed integer, its sample has one value, the Bessel divisor \<open>count - 1\<close> is 0,
  and both \<open>variance\<close> and \<open>std\<close> are NaN, not null.
\<close>

theorem single_value_variance_is_NaN:
  "\<exists>p ns. analyzeDataset B (Some [[(''a'', Num (Fin 5))]]) None = Inr p
     \<and> map name (columns p) = [''a'']
     \<and> map ctype (columns p) = [TInteger]
     \<and> map stats (columns p) = [NumericStats ns]
     \<and> count ns = 1 \<and> variance ns = Some NaN \<and> std ns = Some NaN"
proof -
  let ?vs = "map (\<lambda>row. get_prop row ''a'') [[(''a'', Num (Fin 5))]]"
  have vs: "?vs = [Num (Fin 5)]" by (simp add: get_prop_def)
  have "stats (analyzeColumn B [[(''a'', Num (Fin 5))]] ''a'')
          = NumericStats (calculateNumericStats B ?vs)"
    by (rule analyzeColumn_numeric) (simp add: get_prop_def detect_five)
  then show ?thesis
    by (simp add: profile_one_column analyzeColumn_fields get_prop_def detect_five stats_five)
qed

text \<open>
  The halved sum of two binary64 values \<open>lo \<le> hi\<close> lies between them as soon as the sum
  is finite: twice \<open>lo\<close> and twice \<open>hi\<close> are binary64 values (or beyond the finite range),
  and rounding does not cross a binary64 value.
\<close>

lemma sum_above_twice:
  assumes lo: "is_double lo" and le: "lo \<le> hi" and s: "round64 (lo + hi) = Fin s"
  shows "2 * lo \<le> s"
proof -
  have bound: "\<bar>s\<bar> < 2 ^ 1024" using s by (rule round64_finite_bound)
  consider "\<bar>lo\<bar> < 2 ^ 1023" | "2 ^ 1023 \<le> lo" | "lo \<le> - (2 ^ 1023)" by linarith
  then show ?thesis
  proof cases
    case 1
    with lo have "is_double (2 * lo)" by (rule is_double_twice)
    moreover have "2 * lo \<le> lo + hi" using le by simp
    ultimately have "round64 (lo + hi) = PInf \<or> (\<exists>y. round64 (lo + hi) = Fin y \<and> 2 * lo \<le> y)"
      by (rule round64_ge)
    with s show ?thesis by auto
  next
    case 2
    with le have "2 ^ 1024 \<le> \<bar>lo + hi\<bar>" by simp
    then have "round64 (lo + hi) = signed_inf (lo + hi < 0)" by (rule round64_overflow)
    with s show ?thesis by (simp add: signed_inf_def split: if_splits)
  next
    case 3
    then have "2 * lo \<le> - (2 ^ 1024)" by simp
    with bound show ?thesis by linarith
  qed
qed

lemma sum_below_twice:
  assumes hi: "is_double hi" and le: "lo \<le> hi" and s: "round64 (lo + hi) = Fin s"
  shows "s \<le> 2 * hi"
proof -
  have "is_double (- hi)" using hi by simp
  moreover have "- hi \<le> - lo" using le by simp
  moreover have "round64 (- hi + - lo) = Fin (- s)"
    using s round64_minus [of "lo + hi"] by (simp add: add.commute)
  ultimately have "2 * (- hi) \<le> - s" by (rule sum_above_twice)
  then show ?thesis by simp
qed

lemma midpoint_between:
  assumes lo: "is_double lo" and hi: "is_double hi" and le: "lo \<le> hi"
    and s: "jadd (Fin lo) (Fin hi) = Fin s"
  shows "\<exists>m. jdiv (jadd (Fin lo) (Fin hi)) (Fin 2) = Fin m \<and> lo \<le> m \<and> m \<le> hi"
proof -
  from s have r: "round64 (lo + hi) = Fin s" by simp
  have "2 * lo \<le> s" using lo le r by (rule sum_above_twice)
  then have a: "lo \<le> s / 2" by simp
  have "s \<le> 2 * hi" using hi le r by (rule sum_below_twice)
  then have b: "s / 2 \<le> hi" by simp
  have "round64 (s / 2) = PInf \<or> (\<exists>y. round64 (s / 2) = Fin y \<and> lo \<le> y)"
    using lo a by (rule round64_ge)
  moreover have "round64 (s / 2) = NInf \<or> (\<exists>y. round64 (s / 2) = Fin y \<and> y \<le> hi)"
    using hi b by (rule round64_le)
  ultimately have "\<exists>m. round64 (s / 2) = Fin m \<and> lo \<le> m \<and> m \<le> hi" by auto
  then show ?thesis by (simp add: r)
qed

text \<open>
  The sample \<open>[2^1023, 2^1023]\<close>, two equal binary64 values: the sum of the two middle
  elements overflows, the median is \<open>Infinity\<close> and exceeds \<open>q3 = 2^1023\<close>.
\<close>

theorem median_overflow_counterexample:
  "is_double (2 ^ 1023)
   \<and> median (calculateNumericStats example_builtins [Num (Fin (2 ^ 1023)), Num (Fin (2 ^ 1023))])
       = Some PInf
   \<and> q3 (calculateNumericStats example_builtins [Num (Fin (2 ^ 1023)), Num (Fin (2 ^ 1023))])
       = Some (Fin (2 ^ 1023))
   \<and> jgreater PInf (Fin (2 ^ 1023))"
proof -
  have d: "is_double (2 ^ 1023)"
    using is_double_scaled [of "2 ^ 52" 971] by simp
  have h: "sortedNumericValues example_builtins [Num (Fin (2 ^ 1023)), Num (Fin (2 ^ 1023))]
             = [Fin (2 ^ 1023), Fin (2 ^ 1023)]"
    by (simp add: sortedNumericValues_def)
  have m: "median_of [Fin (2 ^ 1023), Fin (2 ^ 1023)] = Some PInf"
    by (simp add: median_of_def elem_at_def round64_overflow signed_inf_def)
  have s: "calculateNumericStats example_builtins [Num (Fin (2 ^ 1023)), Num (Fin (2 ^ 1023))]
     = \<lparr>count = 2,
        mean = Some (Number_toFixed 4 (mean_of [Fin (2 ^ 1023), Fin (2 ^ 1023)])),
        median = median_of [Fin (2 ^ 1023), Fin (2 ^ 1023)],
        std = Some (Number_toFixed 4 (std_of example_builtins [Fin (2 ^ 1023), Fin (2 ^ 1023)])),
        min_v = Some ([Fin (2 ^ 1023), Fin (2 ^ 1023)] ! 0),
        max_v = Some ([Fin (2 ^ 1023), Fin (2 ^ 1023)] ! (2 - 1)),
        q1 = Some ([Fin (2 ^ 1023), Fin (2 ^ 1023)] ! (2 div 4)),
        q3 = Some ([Fin (2 ^ 1023), Fin (2 ^ 1023)] ! (3 * 2 div 4)),
        variance = Some (Number_toFixed 4 (variance_of example_builtins [Fin (2 ^ 1023), Fin (2 ^ 1023)])),
        skewness = falsy_to_null (skewness_of example_builtins [Fin (2 ^ 1023), Fin (2 ^ 1023)]),
        kurtosis = falsy_to_null (kurtosis_of example_builtins [Fin (2 ^ 1023), Fin (2 ^ 1023)])\<rparr>"
    using calculateNumericStats_nonempty [OF h] by simp
  have md: "median (calculateNumericStats example_builtins
               [Num (Fin (2 ^ 1023)), Num (Fin (2 ^ 1023))]) = Some PInf"
    by (simp add: s m del: power_numeral)
  have q: "q3 (calculateNumericStats example_builtins
               [Num (Fin (2 ^ 1023)), Num (Fin (2 ^ 1023))]) = Some (Fin (2 ^ 1023))"
    by (simp add: s del: power_numeral)
  have g: "jgreater PInf (Fin (2 ^ 1023))"
    by (simp add: jgreater_def)
  from d md q g show ?thesis by (intro conjI)
qed

text \<open>
  C7, amended. For a non-empty numeric sample (the sorted finite values \<open>nums\<close> of the
  column, which are binary64 values), \<open>min \<le> q1 \<le> q3 \<le> max\<close>, where \<open>q1\<close> and \<open>q3\<close> are
  the elements at indices \<open>floor(count * 0.25)\<close> and \<open>floor(count * 0.75)\<close> of the ascending
  sample; the median is the middle element or, when the count is even, the sum of the two
  middle elements halved, both operations in binary64; and \<open>q1 \<le> median \<le> q3\<close> holds when
  the count is odd or the sum of the two middle elements is finite, that is, does not
  overflow.
\<close>

theorem quartiles_ordered_unless_overflow:
  assumes nums: "sortedNumericValues B values = nums" and ne: "nums \<noteq> []"
    and dbl: "list_all (\<lambda>x. is_double (fin_val x)) nums"
  shows "\<exists>mn a b mx.
           min_v (calculateNumericStats B values) = Some (Fin mn)
         \<and> q1 (calculateNumericStats B values) = Some (Fin a)
         \<and> q3 (calculateNumericStats B values) = Some (Fin b)
         \<and> max_v (calculateNumericStats B values) = Some (Fin mx)
         \<and> mn \<le> a \<and> a \<le> b \<and> b \<le> mx
         \<and> sorted (map fin_val nums)
         \<and> Fin mn = nums ! 0
         \<and> Fin mx = nums ! (length nums - 1)
         \<and> Fin a = nums ! (length nums div 4)
         \<and> Fin b = nums ! (3 * length nums div 4)
         \<and> median (calculateNumericStats B values)
             = Some (if even (length nums)
                     then jdiv (jadd (nums ! (length nums div 2 - 1))
                                     (nums ! (length nums div 2))) (Fin 2)
                     else nums ! (length nums div 2))
         \<and> (odd (length nums)
              \<or> isFinite (jadd (nums ! (length nums div 2 - 1)) (nums ! (length nums div 2)))
            \<longrightarrow> (\<exists>m. median (calculateNumericStats B values) = Some (Fin m)
                     \<and> a \<le> m \<and> m \<le> b))"
proof -
  define rs where "rs = map fin_val nums"
  define n where "n = length nums"
  have n: "0 < n" using ne by (simp add: n_def)
  have len: "length rs = n" by (simp add: rs_def n_def)
  have srt: "sorted rs"
    using sortedNumericValues_sorted [of B "values"] by (simp add: nums rs_def)
  have fin: "\<And>x. x \<in> set nums \<Longrightarrow> x = Fin (fin_val x)"
    using sortedNumericValues_finite [of _ B "values"] by (simp add: nums)
  have nth: "nums ! i = Fin (rs ! i)" if "i < n" for i
    using finite_nth [OF fin] that by (simp add: rs_def n_def)
  have dbl_nth: "is_double (rs ! i)" if "i < n" for i
    using dbl that by (simp add: list_all_length rs_def n_def)
  have mono: "rs ! i \<le> rs ! j" if "i \<le> j" "j < n" for i j
    using srt that len by (simp add: sorted_nth_mono)
  have i1: "n div 4 < n" and i3: "3 * n div 4 < n" and i2: "n div 2 < n"
    using n by simp_all
  have i2': "n div 2 - 1 < n" using n by simp
  have q13: "rs ! (n div 4) \<le> rs ! (3 * n div 4)"
  proof -
    have "n div 4 \<le> 3 * n div 4" by presburger
    then show ?thesis using i3 mono by simp
  qed
  have mn: "rs ! 0 \<le> rs ! (n div 4)" using i1 mono by simp
  have mx: "rs ! (3 * n div 4) \<le> rs ! (n - 1)"
  proof -
    have "3 * n div 4 \<le> n - 1" using n by presburger
    then show ?thesis using n mono by simp
  qed
  have med: "median_of nums
      = Some (if even n then jdiv (jadd (nums ! (n div 2 - 1)) (nums ! (n div 2))) (Fin 2)
              else nums ! (n div 2))"
    using i2 i2'
    by (simp add: median_of_def Let_def elem_at_def n_def [symmetric] even_iff_mod_2_eq_zero)
  have between: "\<exists>m. median_of nums = Some (Fin m) \<and> rs ! (n div 4) \<le> m \<and> m \<le> rs ! (3 * n div 4)"
    if c: "odd n \<or> isFinite (jadd (nums ! (n div 2 - 1)) (nums ! (n div 2)))"
  proof (cases "even n")
    case False
    have "n div 4 \<le> n div 2" "n div 2 \<le> 3 * n div 4" by presburger+
    then have "rs ! (n div 4) \<le> rs ! (n div 2)" "rs ! (n div 2) \<le> rs ! (3 * n div 4)"
      using i2 i3 mono by simp_all
    with False i2 show ?thesis by (simp add: med nth)
  next
    case True
    let ?lo = "rs ! (n div 2 - 1)" and ?hi = "rs ! (n div 2)"
    from True c have "isFinite (jadd (Fin ?lo) (Fin ?hi))" using i2 i2' by (simp add: nth)
    then obtain s where s: "jadd (Fin ?lo) (Fin ?hi) = Fin s" by (auto simp: isFinite_iff)
    have le: "?lo \<le> ?hi" using i2 mono by simp
    obtain m where m: "jdiv (jadd (Fin ?lo) (Fin ?hi)) (Fin 2) = Fin m" "?lo \<le> m" "m \<le> ?hi"
      using midpoint_between [OF dbl_nth [OF i2'] dbl_nth [OF i2] le s] by blast
    from True n have "n div 4 \<le> n div 2 - 1" by presburger
    then have "rs ! (n div 4) \<le> ?lo" using i2' mono by simp
    moreover have "n div 2 \<le> 3 * n div 4" by presburger
    then have "?hi \<le> rs ! (3 * n div 4)" using i3 mono by simp
    ultimately have "rs ! (n div 4) \<le> m" "m \<le> rs ! (3 * n div 4)" using m by linarith+
    moreover have "median_of nums = Some (Fin m)"
      using True i2 i2' m(1) by (simp add: med nth)
    ultimately show ?thesis by blast
  qed
  note s = calculateNumericStats_nonempty [OF nums ne]
  have "min_v (calculateNumericStats B values) = Some (Fin (rs ! 0))"
       "q1 (calculateNumericStats B values) = Some (Fin (rs ! (n div 4)))"
       "q3 (calculateNumericStats B values) = Some (Fin (rs ! (3 * n div 4)))"
       "max_v (calculateNumericStats B values) = Some (Fin (rs ! (n - 1)))"
       "median (calculateNumericStats B values) = median_of nums"
    using n i1 i3 by (simp_all add: s nth n_def [symmetric])
  moreover have "Fin (rs ! (n div 4)) = nums ! (length nums div 4)"
      "Fin (rs ! (3 * n div 4)) = nums ! (3 * length nums div 4)"
      "Fin (rs ! 0) = nums ! 0"
      "Fin (rs ! (n - 1)) = nums ! (length nums - 1)"
    using n i1 i3 by (simp_all add: nth n_def [symmetric])
  moreover have "sorted (map fin_val nums)" using srt by (simp add: rs_def)
  ultimately show ?thesis
    using mn q13 mx med between unfolding n_def [symmetric] by (intro exI [where x = "rs ! 0"]
      exI [where x = "rs ! (n div 4)"] exI [where x = "rs ! (3 * n div 4)"]
      exI [where x = "rs ! (n - 1)"]) simp
qed

theorem quartiles_ordered_unless_overflow_witness:
  "sortedNumericValues example_builtins [Num (Fin 3), Num (Fin 1), Str ''x'', Num (Fin 4), Num (Fin 2)]
     = [Fin 1, Fin 2, Fin 3, Fin 4]
   \<and> list_all (\<lambda>x. is_double (fin_val x)) [Fin 1, Fin 2, Fin 3, Fin 4]
   \<and> isFinite (jadd (Fin 2) (Fin 3))
   \<and> min_v (calculateNumericStats example_builtins
                [Num (Fin 3), Num (Fin 1), Str ''x'', Num (Fin 4), Num (Fin 2)]) = Some (Fin 1)
   \<and> q1 (calculateNumericStats example_builtins
                [Num (Fin 3), Num (Fin 1), Str ''x'', Num (Fin 4), Num (Fin 2)]) = Some (Fin 2)
   \<and> median (calculateNumericStats example_builtins
                [Num (Fin 3), Num (Fin 1), Str ''x'', Num (Fin 4), Num (Fin 2)]) = Some (Fin (5 / 2))
   \<and> q3 (calculateNumericStats example_builtins
                [Num (Fin 3), Num (Fin 1), Str ''x'', Num (Fin 4), Num (Fin 2)]) = Some (Fin 4)
   \<and> max_v (calculateNumericStats example_builtins
                [Num (Fin 3), Num (Fin 1), Str ''x'', Num (Fin 4), Num (Fin 2)]) = Some (Fin 4)"
proof -
  have h: "sortedNumericValues example_builtins
             [Num (Fin 3), Num (Fin 1), Str ''x'', Num (Fin 4), Num (Fin 2)]
           = [Fin 1, Fin 2, Fin 3, Fin 4]"
    by (simp add: sortedNumericValues_def builtin_eval string_eval)
  have ne: "[Fin 1, Fin 2, Fin 3, Fin 4] \<noteq> []" by simp
  have d: "list_all (\<lambda>x. is_double (fin_val x)) [Fin 1, Fin 2, Fin 3, Fin 4]"
    by (simp add: is_double_def round64_eval)
  have half: "round64 (5 / 2) = Fin (5 / 2)"
    using round64_dyadic [of 5 1] by simp
  show ?thesis
    using h d quartiles_ordered_unless_overflow [OF h ne d] by (auto simp: round64_eval half)
qed

text \<open>
  \<open>Number(x.toFixed(d))\<close> of a finite \<open>x\<close> is the binary64 value nearest to a decimal with
  \<open>d\<close> fraction digits.
\<close>

lemma round_to_decimal: "\<exists>k::int. round_to d r = of_int k / 10 ^ d"
proof -
  let ?f = "\<lfloor>\<bar>r\<bar> * 10 ^ d + 1 / 2\<rfloor>"
  consider "r < 0" | "r = 0" | "0 < r" by linarith
  then show ?thesis
  proof cases
    case 1
    then have "round_to d r = of_int (- ?f) / 10 ^ d" by (simp add: round_to_def)
    then show ?thesis by blast
  next
    case 2
    then have "round_to d r = of_int 0 / 10 ^ d" by (simp add: round_to_def)
    then show ?thesis by blast
  next
    case 3
    then have "round_to d r = of_int ?f / 10 ^ d" by (simp add: round_to_def)
    then show ?thesis by blast
  qed
qed

lemma Number_toFixed_decimal:
  assumes "Number_toFixed d x = Fin r"
  shows "\<exists>k::int. Fin r = round64 (of_int k / 10 ^ d)"
proof (cases x)
  case (Fin r')
  obtain k :: int where "round_to d r' = of_int k / 10 ^ d"
    using round_to_decimal [of d r'] ..
  with assms Fin have "Fin r = round64 (of_int k / 10 ^ d)" by simp
  then show ?thesis ..
qed (use assms in simp_all)

lemma falsy_to_null_decimal:
  "falsy_to_null x = Some (Fin r) \<Longrightarrow> \<exists>k::int. Fin r = round64 (of_int k / 10 ^ 4)"
  using Number_toFixed_decimal [of 4]
  by (cases x) (auto split: if_splits)

text \<open>
  The median of the sample \<open>[0, 0.0625]\<close> is returned as \<open>0.03125\<close>, which has five
  decimal places: the median is a floating result that is not rounded to four.
\<close>

theorem median_not_rounded_counterexample:
  "median (calculateNumericStats example_builtins [Num (Fin 0), Num (Fin (1 / 16))])
     = Some (Fin (1 / 32))
   \<and> (\<nexists>k::int. (1 / 32 :: real) = of_int k / 10 ^ 4)"
proof
  have "sortedNumericValues example_builtins [Num (Fin 0), Num (Fin (1 / 16))]
          = [Fin 0, Fin (1 / 16)]"
    by (simp add: sortedNumericValues_def)
  moreover have "round64 (1 / 16) = Fin (1 / 16)" "round64 (1 / 32) = Fin (1 / 32)"
    using round64_dyadic [of 1 4] round64_dyadic [of 1 5] by simp_all
  ultimately show "median (calculateNumericStats example_builtins [Num (Fin 0), Num (Fin (1 / 16))])
     = Some (Fin (1 / 32))"
    by (simp add: calculateNumericStats_def median_of_def elem_at_def Let_def)
  show "\<nexists>k::int. (1 / 32 :: real) = of_int k / 10 ^ 4"
  proof
    assume "\<exists>k::int. (1 / 32 :: real) = of_int k / 10 ^ 4"
    then obtain k :: int where "(1 / 32 :: real) = of_int k / 10 ^ 4" ..
    then have "(of_int (2 * k) :: real) = of_int 625" by simp
    then have "2 * k = 625" by (simp only: of_int_eq_iff)
    then show False by presburger
  qed
qed

text \<open>
  C8, amended. With \<open>nums\<close> the sorted finite sample: skewness is null when the count is at
  most 2 and kurtosis is null when it is at most 3; a computed skewness or kurtosis that is
  exactly 0 is reported as null, and one that is neither 0 nor NaN is reported as
  \<open>Number(x.toFixed(4))\<close>; mean, std and variance are reported as \<open>Number(x.toFixed(4))\<close> of
  the computed values, so every finite mean, std, variance, skewness and kurtosis is the
  binary64 value nearest to a multiple of \<open>1/10000\<close>. The median, min, max, q1 and q3 are
  returned as computed, without rounding.
\<close>

theorem skewness_kurtosis_null_and_rounding:
  assumes "sortedNumericValues B values = nums"
  shows "count (calculateNumericStats B values) = length nums
     \<and> (length nums \<le> 2 \<longrightarrow> skewness (calculateNumericStats B values) = None)
     \<and> (length nums \<le> 3 \<longrightarrow> kurtosis (calculateNumericStats B values) = None)
     \<and> (nums \<noteq> [] \<and> skewness_of B nums = Some (Fin 0)
          \<longrightarrow> skewness (calculateNumericStats B values) = None)
     \<and> (nums \<noteq> [] \<and> kurtosis_of B nums = Some (Fin 0)
          \<longrightarrow> kurtosis (calculateNumericStats B values) = None)
     \<and> (\<forall>x. nums \<noteq> [] \<and> skewness_of B nums = Some x \<and> truthy x
          \<longrightarrow> skewness (calculateNumericStats B values) = Some (Number_toFixed 4 x))
     \<and> (\<forall>x. nums \<noteq> [] \<and> kurtosis_of B nums = Some x \<and> truthy x
          \<longrightarrow> kurtosis (calculateNumericStats B values) = Some (Number_toFixed 4 x))
     \<and> (nums \<noteq> []
          \<longrightarrow> mean (calculateNumericStats B values) = Some (Number_toFixed 4 (mean_of nums))
            \<and> std (calculateNumericStats B values) = Some (Number_toFixed 4 (std_of B nums))
            \<and> variance (calculateNumericStats B values)
                = Some (Number_toFixed 4 (variance_of B nums)))
     \<and> (\<forall>r. mean (calculateNumericStats B values) = Some (Fin r)
            \<or> std (calculateNumericStats B values) = Some (Fin r)
            \<or> variance (calculateNumericStats B values) = Some (Fin r)
            \<or> skewness (calculateNumericStats B values) = Some (Fin r)
            \<or> kurtosis (calculateNumericStats B values) = Some (Fin r)
          \<longrightarrow> (\<exists>k::int. Fin r = round64 (of_int k / 10 ^ 4)))
     \<and> (nums \<noteq> []
          \<longrightarrow> median (calculateNumericStats B values) = median_of nums
            \<and> min_v (calculateNumericStats B values) = Some (nums ! 0)
            \<and> max_v (calculateNumericStats B values) = Some (nums ! (length nums - 1))
            \<and> q1 (calculateNumericStats B values) = Some (nums ! (length nums div 4))
            \<and> q3 (calculateNumericStats B values) = Some (nums ! (3 * length nums div 4)))"
proof (cases "nums = []")
  case True
  with assms show ?thesis by (simp add: calculateNumericStats_empty)
next
  case False
  note s = calculateNumericStats_nonempty [OF assms False]
  have sk: "length nums \<le> 2 \<Longrightarrow> skewness_of B nums = None"
    by (simp add: skewness_of_def Let_def)
  have ku: "length nums \<le> 3 \<Longrightarrow> kurtosis_of B nums = None"
    by (simp add: kurtosis_of_def Let_def)
  have dec: "\<exists>k::int. Fin r = round64 (of_int k / 10 ^ 4)"
    if "Number_toFixed 4 (mean_of nums) = Fin r
        \<or> Number_toFixed 4 (std_of B nums) = Fin r
        \<or> Number_toFixed 4 (variance_of B nums) = Fin r
        \<or> falsy_to_null (skewness_of B nums) = Some (Fin r)
        \<or> falsy_to_null (kurtosis_of B nums) = Some (Fin r)" for r
    using that Number_toFixed_decimal [of 4 _ r] falsy_to_null_decimal [of _ r] by blast
  show ?thesis
    using False sk ku dec by (simp add: s truthy_def)
qed

theorem skewness_kurtosis_null_and_rounding_witness:
  "sortedNumericValues example_builtins [Num (Fin 0), Num (Fin 4), Num (Fin 0), Num (Fin 0)]
     = [Fin 0, Fin 0, Fin 0, Fin 4]
   \<and> skewness_of example_builtins [Fin 0, Fin 0, Fin 0, Fin 4] = Some (Fin (3 / 4))
   \<and> kurtosis_of example_builtins [Fin 0, Fin 0, Fin 0, Fin 4] = Some (Fin (- (27 / 16)))
   \<and> truthy (Fin (3 / 4)) \<and> truthy (Fin (- (27 / 16)))
   \<and> count (calculateNumericStats example_builtins
              [Num (Fin 0), Num (Fin 4), Num (Fin 0), Num (Fin 0)]) = 4
   \<and> skewness (calculateNumericStats example_builtins
              [Num (Fin 0), Num (Fin 4), Num (Fin 0), Num (Fin 0)]) = Some (Fin (3 / 4))
   \<and> kurtosis (calculateNumericStats example_builtins
              [Num (Fin 0), Num (Fin 4), Num (Fin 0), Num (Fin 0)]) = Some (Fin (- (27 / 16)))
   \<and> mean (calculateNumericStats example_builtins
              [Num (Fin 0), Num (Fin 4), Num (Fin 0), Num (Fin 0)]) = Some (Fin 1)
   \<and> std (calculateNumericStats example_builtins
              [Num (Fin 0), Num (Fin 4), Num (Fin 0), Num (Fin 0)]) = Some (Fin 2)
   \<and> variance (calculateNumericStats example_builtins
              [Num (Fin 0), Num (Fin 4), Num (Fin 0), Num (Fin 0)]) = Some (Fin 4)
   \<and> median (calculateNumericStats example_builtins
              [Num (Fin 0), Num (Fin 4), Num (Fin 0), Num (Fin 0)]) = Some (Fin 0)
   \<and> sortedNumericValues example_builtins [Num (Fin 1), Num (Fin 2), Num (Fin 3)]
       = [Fin 1, Fin 2, Fin 3]
   \<and> length [Fin 1, Fin 2, Fin 3] \<le> 3
   \<and> skewness_of example_builtins [Fin 1, Fin 2, Fin 3] = Some (Fin 0)
   \<and> skewness (calculateNumericStats example_builtins [Num (Fin 1), Num (Fin 2), Num (Fin 3)])
       = None
   \<and> kurtosis (calculateNumericStats example_builtins [Num (Fin 1), Num (Fin 2), Num (Fin 3)])
       = None"
proof -
  have h: "sortedNumericValues example_builtins
             [Num (Fin 0), Num (Fin 4), Num (Fin 0), Num (Fin 0)] = [Fin 0, Fin 0, Fin 0, Fin 4]"
    by (simp add: sortedNumericValues_def)
  have dy: "round64 (1 / 2) = Fin (1 / 2)" "round64 (3 / 2) = Fin (3 / 2)"
      "round64 (1 / 8) = Fin (1 / 8)" "round64 (1 / 4) = Fin (1 / 4)"
      "round64 (3 / 8) = Fin (3 / 8)" "round64 (27 / 8) = Fin (27 / 8)"
      "round64 (3 / 4) = Fin (3 / 4)" "round64 (1 / 16) = Fin (1 / 16)"
      "round64 (3 / 16) = Fin (3 / 16)" "round64 (81 / 16) = Fin (81 / 16)"
      "round64 (21 / 4) = Fin (21 / 4)" "round64 (21 / 16) = Fin (21 / 16)"
      "round64 (27 / 16) = Fin (27 / 16)"
    using round64_dyadic [of 1 1] round64_dyadic [of 3 1] round64_dyadic [of 1 3]
      round64_dyadic [of 1 2] round64_dyadic [of 3 3] round64_dyadic [of 27 3]
      round64_dyadic [of 3 2] round64_dyadic [of 1 4] round64_dyadic [of 3 4]
      round64_dyadic [of 81 4] round64_dyadic [of 21 2] round64_dyadic [of 21 4]
      round64_dyadic [of 27 4]
    by simp_all
  note ev = round64_eval round64_minus dy jsub_def Math_pow_example Math_pow_zero
  have m: "mean_of [Fin 0, Fin 0, Fin 0, Fin 4] = Fin 1"
    by (simp add: mean_of_def lodash_mean_def ev)
  have v: "variance_of example_builtins [Fin 0, Fin 0, Fin 0, Fin 4] = Fin 4"
    by (simp add: variance_of_def m ev)
  have sd: "std_of example_builtins [Fin 0, Fin 0, Fin 0, Fin 4] = Fin 2"
    by (simp add: std_of_def v ev)
  have sk: "skewness_of example_builtins [Fin 0, Fin 0, Fin 0, Fin 4] = Some (Fin (3 / 4))"
    by (simp add: skewness_of_def m sd ev power3_eq_cube)
  have ku: "kurtosis_of example_builtins [Fin 0, Fin 0, Fin 0, Fin 4] = Some (Fin (- (27 / 16)))"
    by (simp add: kurtosis_of_def m sd ev power4_eq_xxxx)
  have r: "round_to 4 1 = 1" "round_to 4 2 = 2" "round_to 4 4 = 4"
      "round_to 4 (3 / 4) = 3 / 4" "round_to 4 (- (27 / 16)) = - (27 / 16)"
    by (simp_all add: round_to_def)
  have t: "truthy (Fin (3 / 4))" "truthy (Fin (- (27 / 16)))"
    by (simp_all add: truthy_def)
  have md: "median_of [Fin 0, Fin 0, Fin 0, Fin 4] = Some (Fin 0)"
    by (simp add: median_of_def elem_at_def)
  have four: "sortedNumericValues example_builtins
                [Num (Fin 0), Num (Fin 4), Num (Fin 0), Num (Fin 0)]
                = [Fin 0, Fin 0, Fin 0, Fin 4]
   \<and> skewness_of example_builtins [Fin 0, Fin 0, Fin 0, Fin 4] = Some (Fin (3 / 4))
   \<and> kurtosis_of example_builtins [Fin 0, Fin 0, Fin 0, Fin 4] = Some (Fin (- (27 / 16)))
   \<and> truthy (Fin (3 / 4)) \<and> truthy (Fin (- (27 / 16)))
   \<and> count (calculateNumericStats example_builtins
              [Num (Fin 0), Num (Fin 4), Num (Fin 0), Num (Fin 0)]) = 4
   \<and> skewness (calculateNumericStats example_builtins
              [Num (Fin 0), Num (Fin 4), Num (Fin 0), Num (Fin 0)]) = Some (Fin (3 / 4))
   \<and> kurtosis (calculateNumericStats example_builtins
              [Num (Fin 0), Num (Fin 4), Num (Fin 0), Num (Fin 0)]) = Some (Fin (- (27 / 16)))
   \<and> mean (calculateNumericStats example_builtins
              [Num (Fin 0), Num (Fin 4), Num (Fin 0), Num (Fin 0)]) = Some (Fin 1)
   \<and> std (calculateNumericStats example_builtins
              [Num (Fin 0), Num (Fin 4), Num (Fin 0), Num (Fin 0)]) = Some (Fin 2)
   \<and> variance (calculateNumericStats example_builtins
              [Num (Fin 0), Num (Fin 4), Num (Fin 0), Num (Fin 0)]) = Some (Fin 4)
   \<and> median (calculateNumericStats example_builtins
              [Num (Fin 0), Num (Fin 4), Num (Fin 0), Num (Fin 0)]) = Some (Fin 0)"
    using h sk ku t skewness_kurtosis_null_and_rounding [OF h]
    by (simp add: m v sd r md ev)
  have h3: "sortedNumericValues example_builtins [Num (Fin 1), Num (Fin 2), Num (Fin 3)]
             = [Fin 1, Fin 2, Fin 3]"
    by (simp add: sortedNumericValues_def)
  have m3: "mean_of [Fin 1, Fin 2, Fin 3] = Fin 2"
    by (simp add: mean_of_def lodash_mean_def ev)
  have sd3: "std_of example_builtins [Fin 1, Fin 2, Fin 3] = Fin 1"
    by (simp add: std_of_def variance_of_def m3 ev)
  have sk3: "skewness_of example_builtins [Fin 1, Fin 2, Fin 3] = Some (Fin 0)"
    by (simp add: skewness_of_def m3 sd3 ev)
  have three: "sortedNumericValues example_builtins [Num (Fin 1), Num (Fin 2), Num (Fin 3)]
       = [Fin 1, Fin 2, Fin 3]
   \<and> length [Fin 1, Fin 2, Fin 3] \<le> 3
   \<and> skewness_of example_builtins [Fin 1, Fin 2, Fin 3] = Some (Fin 0)
   \<and> skewness (calculateNumericStats example_builtins [Num (Fin 1), Num (Fin 2), Num (Fin 3)])
       = None
   \<and> kurtosis (calculateNumericStats example_builtins [Num (Fin 1), Num (Fin 2), Num (Fin 3)])
       = None"
    using h3 sk3 skewness_kurtosis_null_and_rounding [OF h3] by simp
  from four three show ?thesis by (simp only: simp_thms)
qed

text \<open>
  The mean of \<open>[0.09375, 0, 0, 0, 0]\<close>: the exact quotient \<open>0.09375 / 5 = 0.01875\<close> is not a
  binary64 value, the quotient computed is the binary64 value just below it, and \<open>toFixed(4)\<close>
  prints \<open>0.0187\<close> (the exact quotient would print \<open>0.0188\<close>).
\<close>

lemma mean_rounded_quotient:
  "mean (calculateNumericStats example_builtins
           [Num (Fin (3 / 32)), Num (Fin 0), Num (Fin 0), Num (Fin 0), Num (Fin 0)])
     = Some (round64 (187 / 10000))"
proof -
  have h: "sortedNumericValues example_builtins
             [Num (Fin (3 / 32)), Num (Fin 0), Num (Fin 0), Num (Fin 0), Num (Fin 0)]
           = [Fin 0, Fin 0, Fin 0, Fin 0, Fin (3 / 32)]"
    by (simp add: sortedNumericValues_def)
  have s: "round64 (3 / 32) = Fin (3 / 32)"
    using round64_dyadic [of 3 5] by simp
  have b: "binade (3 / 160) = - 6"
    by (rule binade_eqI) (simp_all add: power_int_minus)
  have r: "round_half_even (3 / 160 * 2 ^ 58) = 5404319552844595"
    by (simp add: round_half_even_def)
  have "round_magnitude (3 / 160) = 5404319552844595 / 2 ^ 58"
    using r b by (simp add: round_magnitude_def ulp_exp_def power_int_minus)
  then have q: "round64 (3 / 160) = Fin (5404319552844595 / 2 ^ 58)"
    by (simp add: round64_def)
  have m: "mean_of [Fin 0, Fin 0, Fin 0, Fin 0, Fin (3 / 32)] = Fin (5404319552844595 / 2 ^ 58)"
    using s q by (simp add: mean_of_def lodash_mean_def)
  have t: "round_to 4 (5404319552844595 / 2 ^ 58) = 187 / 10000"
    by (simp add: round_to_def)
  have ne: "[Fin 0, Fin 0, Fin 0, Fin 0, Fin (3 / 32)] \<noteq> []" by simp
  have "Number_toFixed 4 (mean_of [Fin 0, Fin 0, Fin 0, Fin 0, Fin (3 / 32)])
          = round64 (187 / 10000)"
    by (simp only: m Number_toFixed.simps t)
  then show ?thesis
    by (simp add: calculateNumericStats_nonempty [OF h ne])
qed

subsection \<open>Chart suggestions\<close>

lemma set_insert_desc: "set (insert_desc f x ys) = insert x (set ys)"
  by (induction ys) auto

lemma sorted_insert_desc:
  "sorted_wrt (\<lambda>a b. f a \<ge> f b) ys \<Longrightarrow> sorted_wrt (\<lambda>a b. f a \<ge> f b) (insert_desc f x ys)"
  by (induction ys) (auto simp: set_insert_desc)

lemma filter_insert_desc:
  "sorted_wrt (\<lambda>a b. f a \<ge> f b) ys \<Longrightarrow>
   filter (\<lambda>y. f y = k) (insert_desc f x ys)
     = (if f x = k then x # filter (\<lambda>y. f y = k) ys else filter (\<lambda>y. f y = k) ys)"
proof (induction ys)
  case Nil
  show ?case by simp
next
  case (Cons y ys)
  show ?case
  proof (cases "f y > f x")
    case False
    then show ?thesis by simp
  next
    case True
    from Cons.prems have "\<forall>z \<in> set ys. f z \<le> f y" and "sorted_wrt (\<lambda>a b. f a \<ge> f b) ys"
      by simp_all
    with True Cons.IH show ?thesis by auto
  qed
qed

text \<open>
  The sort of \<open>_.orderBy(xs, [key], ['desc'])\<close>: the result is in descending key order and,
  for each key, holds the elements of that key in their original order.
\<close>

lemma orderBy_desc_sorted: "sorted_wrt (\<lambda>a b. f a \<ge> f b) (orderBy_desc f xs)"
  unfolding orderBy_desc_def by (induction xs) (simp_all add: sorted_insert_desc)

lemma orderBy_desc_stable:
  "filter (\<lambda>y. f y = k) (orderBy_desc f xs) = filter (\<lambda>y. f y = k) xs"
proof (induction xs)
  case Nil
  show ?case by (simp add: orderBy_desc_def)
next
  case (Cons x xs)
  have "sorted_wrt (\<lambda>a b. f a \<ge> f b) (foldr (insert_desc f) xs [])"
    using orderBy_desc_sorted [of f xs] by (simp add: orderBy_desc_def)
  with Cons show ?case by (simp add: orderBy_desc_def filter_insert_desc)
qed

text \<open>
  C2. The specification requires that every suggestion of priority high precedes every suggestion of
  priority medium. The code evaluated on a dataset with one numeric column: the descending
  sort compares the priority strings, \<open>"medium"\<close> is greater than \<open>"high"\<close>, and the
  box plot (medium) comes before the histogram (high).
\<close>

theorem medium_suggestion_precedes_high:
  "\<exists>p. analyzeDataset B (Some [[(''a'', Num (Fin 5))]]) None = Inr p
     \<and> map (\<lambda>s. (chart s, priority s)) (chartSuggestions p)
         = [(''boxplot'', ''medium''), (''histogram'', ''high'')]"
proof -
  have "ctype (analyzeColumn B [[(''a'', Num (Fin 5))]] ''a'') = TInteger"
    by (simp add: analyzeColumn_fields get_prop_def detect_five)
  then show ?thesis
    by (simp add: profile_one_column suggestChartTypes_def orderBy_desc_def)
qed

subsection \<open>Missing data\<close>

lemma trim_empty_iff: "trim s = '''' \<longleftrightarrow> list_all is_space s"
proof
  assume "list_all is_space s"
  then have "dropWhile is_space s = []" by (simp add: list_all_iff)
  then show "trim s = ''''" unfolding trim_def by (simp only: rev.simps dropWhile.simps)
next
  assume t: "trim s = ''''"
  show "list_all is_space s"
  proof (rule ccontr)
    assume "\<not> list_all is_space s"
    then have ne: "dropWhile is_space s \<noteq> []" by (simp add: list_all_iff)
    then have "\<not> is_space (hd (dropWhile is_space s))" by (rule hd_dropWhile)
    moreover have "hd (dropWhile is_space s) \<in> set (rev (dropWhile is_space s))"
      using ne by simp
    ultimately have "\<exists>c \<in> set (rev (dropWhile is_space s)). \<not> is_space c" by blast
    then have "dropWhile is_space (rev (dropWhile is_space s)) \<noteq> []"
      by (simp only: dropWhile_eq_Nil_conv) blast
    with t show False by (simp add: trim_def)
  qed
qed

text \<open>
  A value counts as missing exactly when it is null, undefined, a string of white space
  only (the empty string included) or the number NaN.
\<close>

lemma isMissing_iff:
  "isMissing v \<longleftrightarrow>
     v = Null \<or> v = Undefined \<or> (\<exists>s. v = Str s \<and> list_all is_space s) \<or> v = Num NaN"
proof (cases v)
  case (Num n)
  then show ?thesis by (cases n) simp_all
next
  case (Str s)
  then show ?thesis by (auto simp: trim_empty_iff)
qed simp_all

text \<open>The counts of the missingness record add up on every column.\<close>

lemma calculateMissingData_counts:
  "total (calculateMissingData values) = length values
   \<and> missing (calculateMissingData values) = length (filter isMissing values)
   \<and> missing (calculateMissingData values) + present (calculateMissingData values)
       = total (calculateMissingData values)"
  by (simp add: calculateMissingData_def Let_def)

text \<open>
  C5. The specification requires that with \<open>total = 0\<close> both percentages are 0. The code evaluated on
  the empty column: \<open>0 / 0\<close> is NaN, and both percentages are NaN.
\<close>

theorem empty_column_percentages_are_NaN:
  "calculateMissingData [] =
     \<lparr>total = 0, missing = 0, present = 0, missingPercentage = NaN, presentPercentage = NaN\<rparr>"
  by (simp add: calculateMissingData_def)

text \<open>
  On a column with at least one value both percentages are finite numbers between 0 and
  100: the quotient lies between the binary64 values 0 and 1, the product and the rounded
  decimal between 0 and 100, and rounding to binary64 does not leave these bounds.
\<close>

lemma round_to_percent:
  assumes "0 \<le> x" and "x \<le> 100"
  shows "0 \<le> round_to 2 x" and "round_to 2 x \<le> 100"
proof -
  have "x * 10 ^ 2 + 1 / 2 < 10001" using assms(2) by simp
  then have "\<lfloor>x * 10 ^ 2 + 1 / 2\<rfloor> < 10001" by (simp add: floor_less_iff)
  then have "\<lfloor>x * 10 ^ 2 + 1 / 2\<rfloor> \<le> 10000" by simp
  then have up: "(of_int \<lfloor>x * 10 ^ 2 + 1 / 2\<rfloor> :: real) \<le> 10000" by linarith
  have "0 \<le> x * 10 ^ 2 + 1 / 2" using assms(1) by simp
  then have "0 \<le> \<lfloor>x * 10 ^ 2 + 1 / 2\<rfloor>" by (simp only: zero_le_floor)
  then have lo: "(0::real) \<le> of_int \<lfloor>x * 10 ^ 2 + 1 / 2\<rfloor>" by simp
  have e: "round_to 2 x = (if x = 0 then 0 else of_int \<lfloor>x * 10 ^ 2 + 1 / 2\<rfloor> / 10 ^ 2)"
    using assms(1) by (simp add: round_to_def sgn_if)
  show "0 \<le> round_to 2 x" using lo by (simp add: e)
  show "round_to 2 x \<le> 100" using up by (simp add: e)
qed

lemma percentage_range:
  assumes "m \<le> t" and "0 < t"
  shows "\<exists>p. Number_toFixed 2 (jmul (jdiv (Fin (real m)) (Fin (real t))) (Fin 100)) = Fin p
             \<and> 0 \<le> p \<and> p \<le> 100"
proof -
  have one: "is_double 1" using is_double_of_int [of 1] by simp
  have hundred: "is_double 100" using is_double_of_int [of 100] by simp
  have "0 \<le> real m / real t" "real m / real t \<le> 1" using assms by simp_all
  then obtain y where y: "round64 (real m / real t) = Fin y" "0 \<le> y" "y \<le> 1"
    using round64_between [OF is_double_zero one] by blast
  have "0 \<le> y * 100" "y * 100 \<le> 100" using y by simp_all
  then obtain z where z: "round64 (y * 100) = Fin z" "0 \<le> z" "z \<le> 100"
    using round64_between [OF is_double_zero hundred] by blast
  have "0 \<le> round_to 2 z" "round_to 2 z \<le> 100"
    using z by (simp_all add: round_to_percent)
  then obtain p where p: "round64 (round_to 2 z) = Fin p" "0 \<le> p" "p \<le> 100"
    using round64_between [OF is_double_zero hundred] by blast
  have "Number_toFixed 2 (jmul (jdiv (Fin (real m)) (Fin (real t))) (Fin 100)) = Fin p"
    using assms(2) by (simp add: y z p)
  with p show ?thesis by blast
qed

lemma calculateMissingData_percentages_range:
  assumes "values \<noteq> []"
  shows "\<exists>a b. missingPercentage (calculateMissingData values) = Fin a
             \<and> presentPercentage (calculateMissingData values) = Fin b
             \<and> 0 \<le> a \<and> a \<le> 100 \<and> 0 \<le> b \<and> b \<le> 100"
proof -
  let ?t = "length values" and ?m = "length (filter isMissing values)"
  have t: "0 < ?t" using assms by simp
  have m: "?m \<le> ?t" by simp
  have p: "?t - ?m \<le> ?t" by simp
  from percentage_range [OF m t] percentage_range [OF p t]
  show ?thesis by (auto simp: calculateMissingData_def Let_def)
qed

subsection \<open>Correlation\<close>








lemma map_of_obj_set: "map_of (obj_set k v ob) = (map_of ob)(k \<mapsto> v)"
  by (induction ob) auto

lemma map_of_fold_obj_set:
  "map_of (fold (\<lambda>k acc. obj_set k (f k) acc) ks init) k'
     = (if k' \<in> set ks then Some (f k') else map_of init k')"
  by (induction ks arbitrary: init) (auto simp: map_of_obj_set)

lemma matrix_get_entry:
  assumes "a \<in> set numericColumns" and "b \<in> set numericColumns"
  shows "matrix_get (calculateCorrelationMatrix B rows numericColumns) a b
           = Some (correlationEntry B rows a b)"
  using assms
  by (simp add: matrix_get_def calculateCorrelationMatrix_def map_of_fold_obj_set)















text \<open>
  Outside exact arithmetic rounding decides the correlation of a column with itself. For
  the column \<open>[2^-600, 2^-599]\<close>, two different binary64 values, every product underflows
  to 0 and the zero-denominator guard returns 0; for \<open>[2^600, 2^601]\<close> the products
  overflow and the result is NaN.
\<close>

lemma tiny_column_self_correlation:
  "is_double (1 / 2 ^ 600) \<and> is_double (1 / 2 ^ 599)
   \<and> matrix_get
        (calculateCorrelationMatrix example_builtins
           [[(''a'', Num (Fin (1 / 2 ^ 600)))], [(''a'', Num (Fin (1 / 2 ^ 599)))]] [''a''])
        ''a'' ''a'' = Some (Fin 0)"
proof -
  have d: "is_double (1 / 2 ^ 600)" "is_double (1 / 2 ^ 599)"
    using round64_dyadic [of 1 600] round64_dyadic [of 1 599] by (simp_all add: is_double_def)
  have c: "columnNumbers example_builtins
             [[(''a'', Num (Fin (1 / 2 ^ 600)))], [(''a'', Num (Fin (1 / 2 ^ 599)))]] ''a''
           = [Fin (1 / 2 ^ 600), Fin (1 / 2 ^ 599)]"
    by (simp add: columnNumbers_def get_prop_def)
  have s: "jadd (Fin (1 / 2 ^ 600)) (Fin (1 / 2 ^ 599)) = Fin (3 / 2 ^ 600)"
    using round64_dyadic [of 3 600] by simp
  have m: "jmul (Fin (1 / 2 ^ 600)) (Fin (1 / 2 ^ 600)) = Fin 0"
      "jmul (Fin (1 / 2 ^ 599)) (Fin (1 / 2 ^ 599)) = Fin 0"
      "jmul (Fin (3 / 2 ^ 600)) (Fin (3 / 2 ^ 600)) = Fin 0"
    using round64_tiny [of 1 1 1200] round64_tiny [of 1 1 1198] round64_tiny [of 9 4 1200]
    by simp_all
  have p: "pearsonCorrelation [Fin (1 / 2 ^ 600), Fin (1 / 2 ^ 599)]
             [Fin (1 / 2 ^ 600), Fin (1 / 2 ^ 599)] = Fin 0"
    by (simp only: pearsonCorrelation_def Let_def list.map zip_Cons_Cons zip_Nil prod.case
          lodash_sum.simps foldl_Cons foldl_Nil s m)
       (simp add: jsub_def)
  from d show ?thesis
    by (simp only: matrix_get_entry list.set insertI1 correlationEntry_def Let_def c p) simp
qed

lemma huge_column_self_correlation:
  "is_double (2 ^ 600) \<and> is_double (2 ^ 601)
   \<and> matrix_get
        (calculateCorrelationMatrix example_builtins
           [[(''a'', Num (Fin (2 ^ 600)))], [(''a'', Num (Fin (2 ^ 601)))]] [''a''])
        ''a'' ''a'' = Some NaN"
proof -
  have d: "is_double (2 ^ 600)" "is_double (2 ^ 601)"
    using is_double_scaled [of 1 600] is_double_scaled [of 1 601] by simp_all
  have c: "columnNumbers example_builtins
             [[(''a'', Num (Fin (2 ^ 600)))], [(''a'', Num (Fin (2 ^ 601)))]] ''a''
           = [Fin (2 ^ 600), Fin (2 ^ 601)]"
    by (simp add: columnNumbers_def get_prop_def)
  have s: "jadd (Fin (2 ^ 600)) (Fin (2 ^ 601)) = Fin (3 * 2 ^ 600)"
    using is_double_scaled [of 3 600] by (simp add: is_double_def)
  have m: "jmul (Fin (2 ^ 600)) (Fin (2 ^ 600)) = PInf"
      "jmul (Fin (2 ^ 601)) (Fin (2 ^ 601)) = PInf"
      "jmul (Fin (3 * 2 ^ 600)) (Fin (3 * 2 ^ 600)) = PInf"
    by (simp_all add: round64_overflow signed_inf_def)
  have p: "pearsonCorrelation [Fin (2 ^ 600), Fin (2 ^ 601)] [Fin (2 ^ 600), Fin (2 ^ 601)] = NaN"
    by (simp only: pearsonCorrelation_def Let_def list.map zip_Cons_Cons zip_Nil prod.case
          lodash_sum.simps foldl_Cons foldl_Nil s m)
       (simp add: jsub_def signed_inf_def)
  from d show ?thesis
    by (simp only: matrix_get_entry list.set insertI1 correlationEntry_def Let_def c p) simp
qed

end
